theory Spec2Isabelle
  imports Main "HOL-Library.Word"
begin

unbundle bit_operations_syntax

section \<open>Machine types and buffers\<close>

text \<open>
  The firmware works on \<open>uint8_t\<close> and \<open>uint16_t\<close> values; both are modelled as
  machine words, so that \<open>+\<close> and \<open>*\<close> wrap as the C conversions to the unsigned
  type do. A C array of bytes is a list of bytes.
\<close>

type_synonym u8 = "8 word"
type_synonym u16 = "16 word"

text \<open>
  \<open>memcpy\<close> between two different objects: \<open>n\<close> bytes from offset \<open>soff\<close> of
  \<open>src\<close> are stored from offset \<open>doff\<close> of \<open>dst\<close> on, byte by byte.
\<close>

definition memcpy :: "u8 list \<Rightarrow> nat \<Rightarrow> u8 list \<Rightarrow> nat \<Rightarrow> nat \<Rightarrow> u8 list" where
  "memcpy dst doff src soff n =
     foldl (\<lambda>d k. d[doff + k := src ! (soff + k)]) dst [0..<n]"

definition memset :: "u8 list \<Rightarrow> u8 \<Rightarrow> nat \<Rightarrow> u8 list" where
  "memset dst v n = foldl (\<lambda>d k. d[k := v]) dst [0..<n]"

section \<open>Log messages (LogUtils.h, LogUtils.c)\<close>

definition LOG_MESSAGE_HEADER_BYTE :: nat where "LOG_MESSAGE_HEADER_BYTE = 4"
definition LOG_MESSAGE_DATA_BYTE :: nat where "LOG_MESSAGE_DATA_BYTE = 60"
definition LOG_MESSAGE_TOT_BYTE :: nat where "LOG_MESSAGE_TOT_BYTE = 64"

text \<open>The struct \<open>log_t\<close>; its \<open>data\<close> field is an array of 60 bytes.\<close>

record log_t =
  logID :: u8
  intReg :: u8
  timestamp :: u16
  data :: "u8 list"

definition log_wf :: "log_t \<Rightarrow> bool" where
  "log_wf r = (length (data r) = LOG_MESSAGE_DATA_BYTE)"

text \<open>\<open>LOG_insertPayload\<close> copies 60 bytes of the payload into the data field.\<close>

definition LOG_insertPayload :: "log_t \<Rightarrow> u8 list \<Rightarrow> log_t" where
  "LOG_insertPayload msg dataPtr =
     msg\<lparr>data := memcpy (data msg) 0 dataPtr 0 LOG_MESSAGE_DATA_BYTE\<rparr>"

text \<open>
  \<open>LOG_createMessage\<close> fills a local \<open>log_t\<close>; its data field is not initialised
  before the copy overwrites all of it, and is taken here as 60 zero bytes.
\<close>

definition LOG_createMessage :: "u8 \<Rightarrow> u8 \<Rightarrow> u16 \<Rightarrow> u8 list \<Rightarrow> log_t" where
  "LOG_createMessage lid ireg time dataPtr =
     LOG_insertPayload
       \<lparr>logID = lid, intReg = ireg, timestamp = time,
        data = replicate LOG_MESSAGE_DATA_BYTE 0\<rparr> dataPtr"

text \<open>
  \<open>LOG_unpackMessage\<close> serialises a message into a 64 byte buffer:
  \<open>buffer[0] = logID\<close>, \<open>buffer[1] = intReg\<close>, \<open>buffer[2] = timestamp & 0xFF\<close>,
  \<open>buffer[3] = (timestamp >> 8) & 0xFF\<close>, then the 60 data bytes from \<open>buffer[4]\<close> on.
\<close>

definition LOG_unpackMessage :: "u8 list \<Rightarrow> log_t \<Rightarrow> u8 list" where
  "LOG_unpackMessage buffer message =
     (let b0 = buffer[0 := logID message];
          b1 = b0[1 := intReg message];
          b2 = b1[2 := ucast (timestamp message AND 0xFF)];
          b3 = b2[3 := ucast (drop_bit 8 (timestamp message) AND 0xFF)]
      in memcpy b3 4 (data message) 0 LOG_MESSAGE_DATA_BYTE)"

text \<open>
  \<open>LOG_packMessage\<close> reads a message back from a buffer; the timestamp is
  \<open>(buffer[3] << 8) | buffer[2]\<close>, computed in \<open>int\<close> and stored in 16 bits.
\<close>

definition LOG_packMessage :: "log_t \<Rightarrow> u8 list \<Rightarrow> log_t" where
  "LOG_packMessage message buffer =
     message\<lparr>logID := buffer ! 0,
             intReg := buffer ! 1,
             timestamp := push_bit 8 (ucast (buffer ! 3)) OR ucast (buffer ! 2),
             data := memcpy (data message) 0 buffer 4 LOG_MESSAGE_DATA_BYTE\<rparr>"

section \<open>The 25LC256 EEPROM (25LC256.h, 25LC256.c)\<close>

text \<open>
  The device is seen through the 16 bit address that every SPI transaction carries: its
  content is a function from addresses to bytes. A read of \<open>n\<close> bytes from \<open>addr\<close>
  returns the bytes at \<open>addr\<close>, \<open>addr + 1\<close>, ...; a write of \<open>n\<close> bytes stores byte
  \<open>k\<close> of the buffer at \<open>addr + k\<close>. Every page write of the firmware starts on a page
  boundary or stays inside the control page, so the roll-over of the device inside a
  page does not arise. \<open>EEPROM_waitForWriteComplete\<close> polls the status register until
  the write has ended and does not change the content.
\<close>

type_synonym eeprom_t = "u16 \<Rightarrow> u8"

definition SPI_EEPROM_PAGE_SIZE :: u16 where "SPI_EEPROM_PAGE_SIZE = 64"
definition SPI_EEPROM_PAGE_COUNT :: u16 where "SPI_EEPROM_PAGE_COUNT = 512"
definition SPI_EEPROM_SIZE_BYTE :: u16 where "SPI_EEPROM_SIZE_BYTE = 0x7FFF"

definition CTRL_REG_PSOC_STATUS :: u16 where "CTRL_REG_PSOC_STATUS = 0x0000"
definition CTRL_REG_LOG_PAGES_LOW :: u16 where "CTRL_REG_LOG_PAGES_LOW = 0x0008"
definition CTRL_REG_LOG_PAGES_HIGH :: u16 where "CTRL_REG_LOG_PAGES_HIGH = 0x0016"
definition LOG_DATA_BASE_ADDR :: u16 where "LOG_DATA_BASE_ADDR = 0x0040"
definition LOG_PAGES_PER_EVENT :: u16 where "LOG_PAGES_PER_EVENT = 5"

definition CTRL_REG_PSOC_START_STOP_SHIFT :: nat where "CTRL_REG_PSOC_START_STOP_SHIFT = 0"
definition CTRL_REG_PSOC_CONFIG_MODE_SHIFT :: nat where "CTRL_REG_PSOC_CONFIG_MODE_SHIFT = 1"
definition CTRL_REG_PSOC_SEND_FLAG_SHIFT :: nat where "CTRL_REG_PSOC_SEND_FLAG_SHIFT = 2"
definition CTRL_REG_PSOC_RESET_FLAG_SHIFT :: nat where "CTRL_REG_PSOC_RESET_FLAG_SHIFT = 3"

definition CTRL_REG_PSOC_SET_START :: u8 where
  "CTRL_REG_PSOC_SET_START = push_bit CTRL_REG_PSOC_START_STOP_SHIFT 1"
definition CTRL_REG_PSOC_SET_CONFIG :: u8 where
  "CTRL_REG_PSOC_SET_CONFIG = push_bit CTRL_REG_PSOC_CONFIG_MODE_SHIFT 1"
definition CTRL_REG_PSOC_SET_SEND_FLAG :: u8 where
  "CTRL_REG_PSOC_SET_SEND_FLAG = push_bit CTRL_REG_PSOC_SEND_FLAG_SHIFT 1"
definition CTRL_REG_PSOC_SET_RESET_FLAG :: u8 where
  "CTRL_REG_PSOC_SET_RESET_FLAG = push_bit CTRL_REG_PSOC_RESET_FLAG_SHIFT 1"

definition EEPROM_readByte :: "eeprom_t \<Rightarrow> u16 \<Rightarrow> u8" where
  "EEPROM_readByte m addr = m addr"

definition EEPROM_writeByte :: "eeprom_t \<Rightarrow> u16 \<Rightarrow> u8 \<Rightarrow> eeprom_t" where
  "EEPROM_writeByte m addr dataByte = m(addr := dataByte)"

definition EEPROM_readPage :: "eeprom_t \<Rightarrow> u16 \<Rightarrow> nat \<Rightarrow> u8 list" where
  "EEPROM_readPage m addr nBytes = map (\<lambda>k. m (addr + of_nat k)) [0..<nBytes]"

definition EEPROM_writePage :: "eeprom_t \<Rightarrow> u16 \<Rightarrow> u8 list \<Rightarrow> nat \<Rightarrow> eeprom_t" where
  "EEPROM_writePage m addr dat nBytes =
     (\<lambda>a. if unat (a - addr) < nBytes then dat ! unat (a - addr) else m a)"

text \<open>The four flags of the control register at address 0.\<close>

definition EEPROM_saveResetFlag :: "eeprom_t \<Rightarrow> u8 \<Rightarrow> eeprom_t" where
  "EEPROM_saveResetFlag m flag =
     (let ctrl_reg = EEPROM_readByte m CTRL_REG_PSOC_STATUS;
          ctrl_reg = (if flag = 1 then ctrl_reg OR CTRL_REG_PSOC_SET_RESET_FLAG
                      else ctrl_reg AND NOT CTRL_REG_PSOC_SET_RESET_FLAG)
      in EEPROM_writeByte m CTRL_REG_PSOC_STATUS ctrl_reg)"

definition EEPROM_retrieveResetFlag :: "eeprom_t \<Rightarrow> u8" where
  "EEPROM_retrieveResetFlag m =
     drop_bit CTRL_REG_PSOC_RESET_FLAG_SHIFT
       (EEPROM_readByte m CTRL_REG_PSOC_STATUS AND CTRL_REG_PSOC_SET_RESET_FLAG) AND 0x01"

definition EEPROM_saveStartStopState :: "eeprom_t \<Rightarrow> u8 \<Rightarrow> eeprom_t" where
  "EEPROM_saveStartStopState m state =
     (let ctrl_reg = EEPROM_readByte m CTRL_REG_PSOC_STATUS;
          ctrl_reg = (if state = 1 then ctrl_reg OR CTRL_REG_PSOC_SET_START
                      else ctrl_reg AND NOT CTRL_REG_PSOC_SET_START);
          m1 = EEPROM_writeByte m CTRL_REG_PSOC_STATUS ctrl_reg
      in if ctrl_reg AND CTRL_REG_PSOC_SET_RESET_FLAG \<noteq> 0
         then EEPROM_saveResetFlag m1 0 else m1)"

definition EEPROM_retrieveStartStopState :: "eeprom_t \<Rightarrow> u8" where
  "EEPROM_retrieveStartStopState m =
     drop_bit CTRL_REG_PSOC_START_STOP_SHIFT
       (EEPROM_readByte m CTRL_REG_PSOC_STATUS AND CTRL_REG_PSOC_SET_START) AND 0x01"

definition EEPROM_saveConfigFlag :: "eeprom_t \<Rightarrow> u8 \<Rightarrow> eeprom_t" where
  "EEPROM_saveConfigFlag m flag =
     (let ctrl_reg = EEPROM_readByte m CTRL_REG_PSOC_STATUS;
          ctrl_reg = (if flag = 1 then ctrl_reg OR CTRL_REG_PSOC_SET_CONFIG
                      else ctrl_reg AND NOT CTRL_REG_PSOC_SET_CONFIG);
          m1 = EEPROM_writeByte m CTRL_REG_PSOC_STATUS ctrl_reg
      in if ctrl_reg AND CTRL_REG_PSOC_SET_RESET_FLAG \<noteq> 0
         then EEPROM_saveResetFlag m1 0 else m1)"


definition EEPROM_saveSendFlag :: "eeprom_t \<Rightarrow> u8 \<Rightarrow> eeprom_t" where
  "EEPROM_saveSendFlag m flag =
     (let ctrl_reg = EEPROM_readByte m CTRL_REG_PSOC_STATUS;
          ctrl_reg = (if flag = 1 then ctrl_reg OR CTRL_REG_PSOC_SET_SEND_FLAG
                      else ctrl_reg AND NOT CTRL_REG_PSOC_SET_SEND_FLAG);
          m1 = EEPROM_writeByte m CTRL_REG_PSOC_STATUS ctrl_reg
      in if ctrl_reg AND CTRL_REG_PSOC_SET_RESET_FLAG \<noteq> 0
         then EEPROM_saveResetFlag m1 0 else m1)"

definition EEPROM_retrieveSendFlag :: "eeprom_t \<Rightarrow> u8" where
  "EEPROM_retrieveSendFlag m =
     drop_bit CTRL_REG_PSOC_SEND_FLAG_SHIFT
       (EEPROM_readByte m CTRL_REG_PSOC_STATUS AND CTRL_REG_PSOC_SET_SEND_FLAG) AND 0x01"

text \<open>
  The page counter: \<open>EEPROM_retrieveLogPages\<close> reads its high byte at
  \<open>CTRL_REG_LOG_PAGES_HIGH\<close> and its low byte at \<open>CTRL_REG_LOG_PAGES_LOW\<close>;
  \<open>EEPROM_incrementLogCounter\<close> writes the two bytes of the incremented counter with
  one page write of 2 bytes at \<open>CTRL_REG_LOG_PAGES_LOW\<close>.
\<close>

definition EEPROM_retrieveLogPages :: "eeprom_t \<Rightarrow> u16" where
  "EEPROM_retrieveLogPages m =
     push_bit 8 (ucast (EEPROM_readByte m CTRL_REG_LOG_PAGES_HIGH))
       OR ucast (EEPROM_readByte m CTRL_REG_LOG_PAGES_LOW)"

definition EEPROM_retrieveLogCount :: "eeprom_t \<Rightarrow> u8" where
  "EEPROM_retrieveLogCount m = ucast (EEPROM_retrieveLogPages m div LOG_PAGES_PER_EVENT)"

definition EEPROM_incrementLogCounter :: "eeprom_t \<Rightarrow> eeprom_t" where
  "EEPROM_incrementLogCounter m =
     (let reg_count = EEPROM_retrieveLogPages m
      in if reg_count < SPI_EEPROM_PAGE_COUNT
         then (let reg_count = reg_count + 1;
                   buffer = [ucast (reg_count AND 0x00FF),
                             ucast (drop_bit 8 reg_count AND 0x00FF)]
               in EEPROM_writePage m CTRL_REG_LOG_PAGES_LOW buffer 2)
         else m)"

text \<open>
  \<open>EEPROM_storeLogData\<close>: the address \<open>LOG_DATA_BASE_ADDR + page_count * 64\<close> is
  computed in \<open>int\<close> and stored in a \<open>uint16_t\<close>, that is modulo \<open>2 ^ 16\<close>.
\<close>

definition EEPROM_storeLogData :: "eeprom_t \<Rightarrow> u8 list \<Rightarrow> eeprom_t" where
  "EEPROM_storeLogData m dataPtr =
     (let page_count = EEPROM_retrieveLogPages m;
          page_addr = LOG_DATA_BASE_ADDR + page_count * SPI_EEPROM_PAGE_SIZE
      in if page_addr \<le> SPI_EEPROM_SIZE_BYTE - SPI_EEPROM_PAGE_SIZE
         then EEPROM_writePage m page_addr dataPtr (unat SPI_EEPROM_PAGE_SIZE)
         else m)"

text \<open>The local buffer of \<open>EEPROM_storeLogMessage\<close> is taken as 64 zero bytes.\<close>

definition EEPROM_storeLogMessage :: "eeprom_t \<Rightarrow> log_t \<Rightarrow> eeprom_t" where
  "EEPROM_storeLogMessage m message =
     (let buffer = LOG_unpackMessage (replicate 64 0) message;
          m1 = EEPROM_storeLogData m buffer
      in EEPROM_incrementLogCounter m1)"

text \<open>
  \<open>EEPROM_findLogID\<close>: the loop reads the first byte of the page at \<open>addrPtr\<close>, moves
  on by one page while it differs from \<open>logID\<close>, and gives up with \<open>0xFFFF\<close> once the
  address has reached \<open>SPI_EEPROM_SIZE_BYTE\<close>.
\<close>

function EEPROM_findLogID_loop :: "eeprom_t \<Rightarrow> u8 \<Rightarrow> u16 \<Rightarrow> u16" where
  "EEPROM_findLogID_loop m lid addrPtr =
     (if EEPROM_readByte m addrPtr \<noteq> lid
      then (if addrPtr + SPI_EEPROM_PAGE_SIZE \<ge> SPI_EEPROM_SIZE_BYTE then 0xFFFF
            else EEPROM_findLogID_loop m lid (addrPtr + SPI_EEPROM_PAGE_SIZE))
      else addrPtr)"
  by pat_completeness auto
termination
proof (relation "measure (\<lambda>(m, lid, a).
          if unat a < 0x7FFF then 0x7FFF - unat a else 0x7FFF + 65536 - unat a)")
  show "wf (measure (\<lambda>(m, lid, a).
          if unat a < 0x7FFF then 0x7FFF - unat a else 0x7FFF + 65536 - unat a))"
    by simp
next
  fix m :: eeprom_t and lid :: u8 and addrPtr :: u16
  assume "\<not> SPI_EEPROM_SIZE_BYTE \<le> addrPtr + SPI_EEPROM_PAGE_SIZE"
  then have lt: "unat (addrPtr + 64) < 0x7FFF"
    by (simp add: SPI_EEPROM_SIZE_BYTE_def SPI_EEPROM_PAGE_SIZE_def word_le_nat_alt)
  have a: "unat addrPtr < 65536"
    using unsigned_less [of addrPtr, where ?'a = nat] by simp
  have b: "unat (addrPtr + 64) = (unat addrPtr + 64) mod 65536"
    by (simp add: unat_word_ariths)
  define n k where "n = unat addrPtr" and "k = unat (addrPtr + 64)"
  from lt a b have "k < 32767" "n < 65536" "k = (n + 64) mod 65536"
    by (simp_all add: n_def k_def)
  then have "(if k < 32767 then 32767 - k else 32767 + 65536 - k)
           < (if n < 32767 then 32767 - n else 32767 + 65536 - n)"
    by (cases "n + 64 < 65536") (simp_all add: mod_if, arith+)
  then show "((m, lid, addrPtr + SPI_EEPROM_PAGE_SIZE), (m, lid, addrPtr))
        \<in> measure (\<lambda>(m, lid, a).
          if unat a < 0x7FFF then 0x7FFF - unat a else 0x7FFF + 65536 - unat a)"
    unfolding n_def k_def by (simp add: SPI_EEPROM_PAGE_SIZE_def)
qed

definition EEPROM_findLogID :: "eeprom_t \<Rightarrow> u8 \<Rightarrow> u16" where
  "EEPROM_findLogID m lid = EEPROM_findLogID_loop m lid LOG_DATA_BASE_ADDR"

definition EEPROM_retrieveLogData :: "eeprom_t \<Rightarrow> u8 \<Rightarrow> u8 \<Rightarrow> u8 list" where
  "EEPROM_retrieveLogData m lid pageIndex =
     (let page_addr = EEPROM_findLogID m lid + ucast pageIndex * SPI_EEPROM_PAGE_SIZE
      in EEPROM_readPage m page_addr (unat SPI_EEPROM_PAGE_SIZE))"

text \<open>The local \<open>msgRX\<close> of \<open>EEPROM_retrieveLogMessage\<close> is overwritten field by field.\<close>

definition EEPROM_retrieveLogMessage :: "eeprom_t \<Rightarrow> u8 \<Rightarrow> u8 \<Rightarrow> log_t" where
  "EEPROM_retrieveLogMessage m lid pageIndex =
     LOG_packMessage
       \<lparr>logID = 0, intReg = 0, timestamp = 0, data = replicate LOG_MESSAGE_DATA_BYTE 0\<rparr>
       (EEPROM_retrieveLogData m lid pageIndex)"

text \<open>
  \<open>EEPROM_resetMemory\<close>: \<open>for (uint16_t i=1; i<SPI_EEPROM_PAGE_COUNT; i++)\<close> writes a
  page of zeros at \<open>page_addr\<close>, which starts at 0 and moves on by one page each time;
  then the reset flag is set.
\<close>

function EEPROM_resetMemory_loop :: "u16 \<Rightarrow> u16 \<Rightarrow> eeprom_t \<Rightarrow> eeprom_t" where
  "EEPROM_resetMemory_loop i page_addr m =
     (if i < SPI_EEPROM_PAGE_COUNT
      then EEPROM_resetMemory_loop (i + 1) (page_addr + SPI_EEPROM_PAGE_SIZE)
             (EEPROM_writePage m page_addr
                (memset (replicate 64 0) 0x00 (unat SPI_EEPROM_PAGE_SIZE))
                (unat SPI_EEPROM_PAGE_SIZE))
      else m)"
  by pat_completeness auto
termination
proof (relation "measure (\<lambda>(i, a, m). 512 - unat i)")
  show "wf (measure (\<lambda>(i, a, m). 512 - unat i))" by simp
next
  fix i page_addr :: u16 and m :: eeprom_t
  assume "i < SPI_EEPROM_PAGE_COUNT"
  then have "unat i < 512"
    by (simp add: SPI_EEPROM_PAGE_COUNT_def word_less_nat_alt)
  moreover from this have "unat (i + 1) = unat i + 1"
    by (simp add: unat_word_ariths)
  ultimately show "((i + 1, page_addr + SPI_EEPROM_PAGE_SIZE,
           EEPROM_writePage m page_addr
             (memset (replicate 64 0) 0x00 (unat SPI_EEPROM_PAGE_SIZE))
             (unat SPI_EEPROM_PAGE_SIZE)),
          (i, page_addr, m)) \<in> measure (\<lambda>(i, a, m). 512 - unat i)"
    by simp
qed

definition EEPROM_resetMemory :: "eeprom_t \<Rightarrow> eeprom_t" where
  "EEPROM_resetMemory m = EEPROM_saveResetFlag (EEPROM_resetMemory_loop 1 0x0000 m) 1"

section \<open>The LIS3DH accelerometer (LIS3DH.h, LIS3DH.c)\<close>

definition LIS3DH_LEVELS_IN_FIFO :: nat where "LIS3DH_LEVELS_IN_FIFO = 32"
definition LIS3DH_BYTES_IN_FIFO :: nat where "LIS3DH_BYTES_IN_FIFO = 192"
definition LIS3DH_BYTES_IN_FIFO_HIGH_REG :: nat where "LIS3DH_BYTES_IN_FIFO_HIGH_REG = 96"
definition LIS3DH_FIFO_STORED :: nat where "LIS3DH_FIFO_STORED = 6"
definition LIS3DH_DOWN_SAMPLE :: nat where "LIS3DH_DOWN_SAMPLE = 2"
definition LIS3DH_BYTES_IN_FIFO_DOWNSAMPLED :: nat where
  "LIS3DH_BYTES_IN_FIFO_DOWNSAMPLED = LIS3DH_BYTES_IN_FIFO_HIGH_REG div LIS3DH_DOWN_SAMPLE"
definition LIS3DH_BYTES_IN_LOG_BUFFER :: nat where
  "LIS3DH_BYTES_IN_LOG_BUFFER =
     LIS3DH_BYTES_IN_FIFO_HIGH_REG div LIS3DH_DOWN_SAMPLE * LIS3DH_FIFO_STORED"

definition LIS3DH_CTRL_REG1 :: u8 where "LIS3DH_CTRL_REG1 = 0x20"
definition LIS3DH_CTRL_REG1_STOP_XYZ :: u8 where "LIS3DH_CTRL_REG1_STOP_XYZ = 0x68"
definition LIS3DH_CTRL_REG1_START_XYZ :: u8 where "LIS3DH_CTRL_REG1_START_XYZ = 0x6F"
definition LIS3DH_CTRL_REG3 :: u8 where "LIS3DH_CTRL_REG3 = 0x22"
definition LIS3DH_CTRL_REG3_I1_IA1_OVERRUN :: u8 where "LIS3DH_CTRL_REG3_I1_IA1_OVERRUN = 0x42"
definition LIS3DH_CTRL_REG3_NULL :: u8 where "LIS3DH_CTRL_REG3_NULL = 0x00"
definition LIS3DH_CTRL_REG4 :: u8 where "LIS3DH_CTRL_REG4 = 0x23"
definition LIS3DH_CTRL_REG4_BDU_ACTIVE :: u8 where "LIS3DH_CTRL_REG4_BDU_ACTIVE = 0x80"
definition LIS3DH_CTRL_REG5 :: u8 where "LIS3DH_CTRL_REG5 = 0x24"
definition LIS3DH_CTRL_REG5_FIFO_ENABLE :: u8 where "LIS3DH_CTRL_REG5_FIFO_ENABLE = 0x40"
definition LIS3DH_CTRL_REG5_FIFO_DISABLE :: u8 where "LIS3DH_CTRL_REG5_FIFO_DISABLE = 0x00"
definition LIS3DH_FIFO_CTRL_REG :: u8 where "LIS3DH_FIFO_CTRL_REG = 0x2E"
definition LIS3DH_FIFO_CTRL_REG_BYPASS_MODE :: u8 where "LIS3DH_FIFO_CTRL_REG_BYPASS_MODE = 0x00"
definition LIS3DH_FIFO_CTRL_REG_FIFO_MODE :: u8 where "LIS3DH_FIFO_CTRL_REG_FIFO_MODE = 0x40"
definition LIS3DH_INT1_CFG :: u8 where "LIS3DH_INT1_CFG = 0x30"
definition LIS3DH_ITN1_CFG_DISABLE_EVENTS :: u8 where "LIS3DH_ITN1_CFG_DISABLE_EVENTS = 0x00"
definition LIS3DH_INT1_CFG_XYZ_HIGH_EVENTS :: u8 where "LIS3DH_INT1_CFG_XYZ_HIGH_EVENTS = 0x2A"
definition LIS3DH_INT1_THS :: u8 where "LIS3DH_INT1_THS = 0x32"
definition LIS3DH_INT1_THS_VALUE :: u8 where "LIS3DH_INT1_THS_VALUE = 0x64"
definition LIS3DH_INT1_DURATION :: u8 where "LIS3DH_INT1_DURATION = 0x33"
definition LIS3DH_INT1_DURATION_VALUE :: u8 where "LIS3DH_INT1_DURATION_VALUE = 0x14"

text \<open>
  The sensor is seen through its register file. A two byte transfer
  \<open>SPI_IMU_Interface_Multi_RW(BUFFTX, 2, &temp, 0)\<close> stores \<open>BUFFTX[1]\<close> in the
  register \<open>BUFFTX[0]\<close>.
\<close>

type_synonym imu_regs_t = "u8 \<Rightarrow> u8"

definition IMU_WriteReg :: "imu_regs_t \<Rightarrow> u8 \<Rightarrow> u8 \<Rightarrow> imu_regs_t" where
  "IMU_WriteReg regs reg v = regs(reg := v)"

definition IMU_Setup :: "imu_regs_t \<Rightarrow> imu_regs_t" where
  "IMU_Setup regs =
     (let r1 = IMU_WriteReg regs LIS3DH_CTRL_REG1 LIS3DH_CTRL_REG1_STOP_XYZ;
          r2 = IMU_WriteReg r1 LIS3DH_CTRL_REG3 LIS3DH_CTRL_REG3_NULL;
          r3 = IMU_WriteReg r2 LIS3DH_CTRL_REG4 LIS3DH_CTRL_REG4_BDU_ACTIVE;
          r4 = IMU_WriteReg r3 LIS3DH_CTRL_REG5 LIS3DH_CTRL_REG5_FIFO_ENABLE;
          r5 = IMU_WriteReg r4 LIS3DH_FIFO_CTRL_REG LIS3DH_FIFO_CTRL_REG_BYPASS_MODE;
          r6 = IMU_WriteReg r5 LIS3DH_INT1_CFG LIS3DH_ITN1_CFG_DISABLE_EVENTS;
          r7 = IMU_WriteReg r6 LIS3DH_INT1_THS LIS3DH_INT1_THS_VALUE
      in IMU_WriteReg r7 LIS3DH_INT1_DURATION LIS3DH_INT1_DURATION_VALUE)"

definition IMU_Stop :: "imu_regs_t \<Rightarrow> imu_regs_t" where
  "IMU_Stop regs =
     (let r1 = IMU_WriteReg regs LIS3DH_CTRL_REG1 LIS3DH_CTRL_REG1_STOP_XYZ;
          r2 = IMU_WriteReg r1 LIS3DH_CTRL_REG3 LIS3DH_CTRL_REG3_NULL;
          r3 = IMU_WriteReg r2 LIS3DH_CTRL_REG5 LIS3DH_CTRL_REG5_FIFO_DISABLE;
          r4 = IMU_WriteReg r3 LIS3DH_FIFO_CTRL_REG LIS3DH_FIFO_CTRL_REG_BYPASS_MODE
      in IMU_WriteReg r4 LIS3DH_INT1_CFG LIS3DH_ITN1_CFG_DISABLE_EVENTS)"

definition IMU_Start :: "imu_regs_t \<Rightarrow> imu_regs_t" where
  "IMU_Start regs =
     (let r1 = IMU_WriteReg regs LIS3DH_CTRL_REG1 LIS3DH_CTRL_REG1_START_XYZ;
          r2 = IMU_WriteReg r1 LIS3DH_CTRL_REG3 LIS3DH_CTRL_REG3_I1_IA1_OVERRUN;
          r3 = IMU_WriteReg r2 LIS3DH_CTRL_REG5 LIS3DH_CTRL_REG5_FIFO_ENABLE;
          r4 = IMU_WriteReg r3 LIS3DH_FIFO_CTRL_REG LIS3DH_FIFO_CTRL_REG_FIFO_MODE
      in IMU_WriteReg r4 LIS3DH_INT1_CFG LIS3DH_INT1_CFG_XYZ_HIGH_EVENTS)"

definition IMU_Init :: "imu_regs_t \<Rightarrow> imu_regs_t" where
  "IMU_Init regs = IMU_Stop (IMU_Setup regs)"

definition IMU_ResetFIFO :: "imu_regs_t \<Rightarrow> imu_regs_t" where
  "IMU_ResetFIFO regs =
     IMU_WriteReg
       (IMU_WriteReg regs LIS3DH_FIFO_CTRL_REG LIS3DH_FIFO_CTRL_REG_BYPASS_MODE)
       LIS3DH_FIFO_CTRL_REG LIS3DH_FIFO_CTRL_REG_FIFO_MODE"

text \<open>
  Acquisition is off when the registers hold what \<open>IMU_Stop\<close> writes: the three axes
  disabled in control register 1, no interrupt routed to the pin, no interrupt event
  enabled.
\<close>

definition IMU_acquisition_off :: "imu_regs_t \<Rightarrow> bool" where
  "IMU_acquisition_off regs =
     (regs LIS3DH_CTRL_REG1 = LIS3DH_CTRL_REG1_STOP_XYZ
      \<and> regs LIS3DH_CTRL_REG3 = LIS3DH_CTRL_REG3_NULL
      \<and> regs LIS3DH_INT1_CFG = LIS3DH_ITN1_CFG_DISABLE_EVENTS)"

subsection \<open>The queue of the last six reduced bursts\<close>

text \<open>
  \<open>IMU_StoreFIFO\<close> first shifts the queue with
  \<open>memcpy(&IMU_log_queue[48], IMU_log_queue, 240)\<close>: source and destination are areas
  of the same array and overlap in 192 bytes. C leaves such a call undefined. Two
  behaviours of the copy inside one array are written out: \<open>memcpy_ascending\<close> copies
  byte by byte from the lowest address on and reads each byte when its turn comes, as
  the plain copy loop of a C library does; \<open>memmove_within\<close> copies as if through a
  temporary buffer, which is what \<open>memmove\<close> guarantees.
\<close>

definition memcpy_ascending :: "u8 list \<Rightarrow> nat \<Rightarrow> nat \<Rightarrow> nat \<Rightarrow> u8 list" where
  "memcpy_ascending a doff soff n =
     foldl (\<lambda>d k. d[doff + k := d ! (soff + k)]) a [0..<n]"

definition memmove_within :: "u8 list \<Rightarrow> nat \<Rightarrow> nat \<Rightarrow> nat \<Rightarrow> u8 list" where
  "memmove_within a doff soff n = memcpy a doff a soff n"

text \<open>
  \<open>IMU_StoreFIFO_with cp queue buffer\<close> is the body of \<open>IMU_StoreFIFO\<close> with the
  behaviour \<open>cp\<close> of the overlapping copy as a parameter: the high register of each
  axis (every second byte of the raw burst) is kept, then the three bytes of every
  second level, the queue is shifted by 48 bytes, and the reduced burst is copied to its
  front. The two local arrays are taken as zero bytes before they are filled;
  \<open>IMU_down_sample_level\<close> is one round of the down-sampling loop.
\<close>

definition IMU_high_reg_data :: "u8 list \<Rightarrow> u8 list" where
  "IMU_high_reg_data buffer =
     foldl (\<lambda>h i. h[i := buffer ! (i * 2 + 1)])
       (replicate LIS3DH_BYTES_IN_FIFO_HIGH_REG 0) [0..<LIS3DH_BYTES_IN_FIFO_HIGH_REG]"

definition IMU_down_sample_level :: "u8 list \<Rightarrow> u8 list \<Rightarrow> nat \<Rightarrow> u8 list" where
  "IMU_down_sample_level high_reg_data d i =
     d[i * 3 := high_reg_data ! ((i * 3) * 2),
       i * 3 + 1 := high_reg_data ! ((i * 3) * 2 + 1),
       i * 3 + 2 := high_reg_data ! ((i * 3) * 2 + 2)]"

definition IMU_down_sampled_data :: "u8 list \<Rightarrow> u8 list" where
  "IMU_down_sampled_data high_reg_data =
     foldl (IMU_down_sample_level high_reg_data)
       (replicate (LIS3DH_BYTES_IN_FIFO_HIGH_REG div LIS3DH_DOWN_SAMPLE) 0)
       [0..<LIS3DH_LEVELS_IN_FIFO div LIS3DH_DOWN_SAMPLE]"

definition IMU_StoreFIFO_with ::
  "(u8 list \<Rightarrow> nat \<Rightarrow> nat \<Rightarrow> nat \<Rightarrow> u8 list) \<Rightarrow> u8 list \<Rightarrow> u8 list \<Rightarrow> u8 list" where
  "IMU_StoreFIFO_with cp queue buffer =
     (let high_reg_data = IMU_high_reg_data buffer;
          down_sampled_data = IMU_down_sampled_data high_reg_data;
          q1 = cp queue LIS3DH_BYTES_IN_FIFO_DOWNSAMPLED 0
                 (LIS3DH_BYTES_IN_LOG_BUFFER - LIS3DH_BYTES_IN_FIFO_DOWNSAMPLED)
      in memcpy q1 0 down_sampled_data 0 LIS3DH_BYTES_IN_FIFO_DOWNSAMPLED)"

definition IMU_StoreFIFO :: "u8 list \<Rightarrow> u8 list \<Rightarrow> u8 list" where
  "IMU_StoreFIFO queue buffer = IMU_StoreFIFO_with memcpy_ascending queue buffer"

text \<open>
  \<open>IMU_getPayload\<close> fills the 60 byte message from the queue. The index is moved to
  base 1 in a \<open>uint8_t\<close>; page 5 is the first 48 bytes of the queue and 12 zero bytes,
  the pages 1 to 4 are the 60 bytes from offset \<open>288 - index*60\<close> on. For any other
  index the C code reads outside the queue: the result is \<open>None\<close>.
\<close>

definition IMU_getPayload :: "u8 list \<Rightarrow> u8 list \<Rightarrow> u8 \<Rightarrow> u8 list option" where
  "IMU_getPayload queue messagge index0 =
     (let index = index0 + 1
      in if index = 5 then Some (memcpy (memset messagge 0 60) 0 queue 0 48)
         else if 1 \<le> index \<and> index < 5
         then Some (memcpy messagge 0 queue (288 - unat index * 60) 60)
         else None)"

section \<open>Firmware state, interrupt routines and main (InterruptRoutines, Notifications, main.c)\<close>

text \<open>The enum \<open>button_t\<close> is an integer type in C; its three values are 0, 1 and 2.\<close>

type_synonym button_t = u8

definition STOP_MODE :: button_t where "STOP_MODE = 0"
definition START_MODE :: button_t where "START_MODE = 1"
definition CONFIG_MODE :: button_t where "CONFIG_MODE = 2"

definition UART_RX_OPERATION_ACK :: u8 where "UART_RX_OPERATION_ACK = 0x4B"
definition UART_RX_RESET_MEMORY :: u8 where "UART_RX_RESET_MEMORY = 0x52"
definition UART_RX_NUMBER_OF_LOGS :: u8 where "UART_RX_NUMBER_OF_LOGS = 0x4E"
definition UART_RX_READ_CTRL_REG :: u8 where "UART_RX_READ_CTRL_REG = 0x43"
definition UART_RX_SEND_LOG_ID :: u8 where "UART_RX_SEND_LOG_ID = 0x4C"

text \<open>
  The state of the firmware: the global variables, the content of the EEPROM, the
  registers of the sensor, the PWM that drives the on-board LED (enabled or not, and its
  compare value) and the bytes sent over the UART so far.
\<close>

record psoc =
  button_state :: button_t
  send_flag :: u8
  IMU_data_ready_flag :: u8
  IMU_over_threshold_flag :: u8
  IMU_log_queue :: "u8 list"
  eeprom :: eeprom_t
  imu_regs :: imu_regs_t
  pwm_notify_enabled :: bool
  pwm_notify_compare :: u8
  uart_tx :: "u8 list"

definition LED_Notify_Stop :: "psoc \<Rightarrow> psoc" where
  "LED_Notify_Stop s = (if pwm_notify_enabled s then s\<lparr>pwm_notify_enabled := False\<rparr> else s)"

definition LED_Notify_Start :: "psoc \<Rightarrow> psoc" where
  "LED_Notify_Start s =
     (let s1 = (if \<not> pwm_notify_enabled s then s\<lparr>pwm_notify_enabled := True\<rparr> else s)
      in s1\<lparr>pwm_notify_compare := 255\<rparr>)"

definition LED_Notify_Config :: "psoc \<Rightarrow> psoc" where
  "LED_Notify_Config s =
     (let s1 = (if \<not> pwm_notify_enabled s then s\<lparr>pwm_notify_enabled := True\<rparr> else s)
      in s1\<lparr>pwm_notify_compare := 127\<rparr>)"

text \<open>\<open>CUSTOM_ISR_CONFIG\<close>, run on a long press of the button.\<close>

definition CUSTOM_ISR_CONFIG :: "psoc \<Rightarrow> psoc" where
  "CUSTOM_ISR_CONFIG s =
     (if button_state s \<noteq> CONFIG_MODE
      then (let s1 = (if button_state s = START_MODE
                      then s\<lparr>imu_regs := IMU_Stop (imu_regs s)\<rparr> else s);
                s2 = s1\<lparr>button_state := CONFIG_MODE\<rparr>;
                s3 = s2\<lparr>eeprom := EEPROM_saveConfigFlag (eeprom s2) 1\<rparr>
            in LED_Notify_Config s3)
      else (let s1 = s\<lparr>button_state := EEPROM_retrieveStartStopState (eeprom s)\<rparr>;
                s2 = s1\<lparr>eeprom := EEPROM_saveConfigFlag (eeprom s1) 0\<rparr>;
                s3 = (if button_state s2 = STOP_MODE then LED_Notify_Stop s2
                      else if button_state s2 = START_MODE
                      then (let t = LED_Notify_Start s2
                            in t\<lparr>imu_regs := IMU_Start (imu_regs t)\<rparr>)
                      else s2)
            in s3\<lparr>eeprom := EEPROM_saveSendFlag (eeprom s3) (send_flag s3)\<rparr>))"

text \<open>\<open>CUSTOM_ISR_START\<close>, run on a double click.\<close>

definition CUSTOM_ISR_START :: "psoc \<Rightarrow> psoc" where
  "CUSTOM_ISR_START s =
     (if button_state s = START_MODE
      then (let s1 = s\<lparr>imu_regs := IMU_Stop (imu_regs s)\<rparr>;
                s2 = s1\<lparr>eeprom := EEPROM_saveStartStopState (eeprom s1) 0\<rparr>;
                s3 = LED_Notify_Stop s2
            in s3\<lparr>button_state := STOP_MODE\<rparr>)
      else if button_state s = STOP_MODE
      then (let s1 = s\<lparr>imu_regs := IMU_Start (imu_regs s)\<rparr>;
                s2 = s1\<lparr>eeprom := EEPROM_saveStartStopState (eeprom s1) 1\<rparr>;
                s3 = LED_Notify_Start s2
            in s3\<lparr>button_state := START_MODE\<rparr>)
      else s)"

text \<open>
  \<open>LOG_sendData\<close> serialises the message into a local 64 byte buffer and sends the
  buffer over the UART.
\<close>

definition LOG_sendData :: "psoc \<Rightarrow> log_t \<Rightarrow> psoc" where
  "LOG_sendData s message =
     s\<lparr>uart_tx := uart_tx s @ LOG_unpackMessage (replicate LOG_MESSAGE_TOT_BYTE 0) message\<rparr>"

text \<open>
  \<open>CUSTOM_ISR_RX\<close>: \<open>op_code\<close> is the byte read from the UART, \<open>arg\<close> the byte that
  the second \<open>UART_GetChar\<close> of the read-log command returns. The read-log case runs
  \<open>for (uint8_t i=0; i<LOG_PAGES_PER_EVENT; i++)\<close>, written here as a fold over the
  five indices.
\<close>

definition CUSTOM_ISR_RX :: "psoc \<Rightarrow> u8 \<Rightarrow> u8 \<Rightarrow> psoc" where
  "CUSTOM_ISR_RX s op_code arg =
     (if op_code = UART_RX_RESET_MEMORY
      then (let s1 = s\<lparr>eeprom := EEPROM_resetMemory (eeprom s)\<rparr>
            in s1\<lparr>uart_tx := uart_tx s1 @ [UART_RX_OPERATION_ACK]\<rparr>)
      else if op_code = UART_RX_NUMBER_OF_LOGS
      then s\<lparr>uart_tx := uart_tx s @ [EEPROM_retrieveLogCount (eeprom s)]\<rparr>
      else if op_code = UART_RX_READ_CTRL_REG
      then s\<lparr>uart_tx := uart_tx s @ [EEPROM_readByte (eeprom s) CTRL_REG_PSOC_STATUS]\<rparr>
      else if op_code = UART_RX_SEND_LOG_ID
      then foldl (\<lambda>t i. LOG_sendData t (EEPROM_retrieveLogMessage (eeprom t) arg (of_nat i)))
             s [0..<unat LOG_PAGES_PER_EVENT]
      else s)"

text \<open>
  The setup of \<open>main\<close> before its loop, as far as the state above goes: the sensor is
  initialised, the button state is set to \<open>STOP_MODE\<close>, the stop bit is saved in the
  EEPROM, the send flag and the two sensor flags are cleared. At power-on only the
  EEPROM keeps its content, so the setup applied to a state with that content is the
  controller after a power cycle.
\<close>

definition main_setup :: "psoc \<Rightarrow> psoc" where
  "main_setup s =
     (let s1 = s\<lparr>imu_regs := IMU_Init (imu_regs s)\<rparr>;
          s2 = s1\<lparr>button_state := STOP_MODE\<rparr>;
          s3 = s2\<lparr>eeprom := EEPROM_saveStartStopState (eeprom s2) 0\<rparr>;
          s4 = s3\<lparr>send_flag := 0\<rparr>
      in s4\<lparr>IMU_data_ready_flag := 0, IMU_over_threshold_flag := 0\<rparr>)"

text \<open>
  The append of one log, the loop
  \<open>for (uint8_t i=0; i<LOG_PAGES_PER_EVENT; i++)\<close> of the over-threshold branch of
  \<open>main\<close>: each round takes the payload of page \<open>i\<close> from the queue, builds the
  message and stores it. The local payload array is taken as 60 zero bytes.
\<close>

definition appendLog_page :: "u8 \<Rightarrow> u8 \<Rightarrow> u16 \<Rightarrow> u8 list \<Rightarrow> eeprom_t \<Rightarrow> nat \<Rightarrow> eeprom_t" where
  "appendLog_page log_id int_reg time queue m i =
     (case IMU_getPayload queue (replicate LOG_MESSAGE_DATA_BYTE 0) (of_nat i) of
        Some payload \<Rightarrow>
          EEPROM_storeLogMessage m (LOG_createMessage log_id int_reg time payload)
      | None \<Rightarrow> m)"

definition appendLog :: "eeprom_t \<Rightarrow> u8 \<Rightarrow> u8 \<Rightarrow> u16 \<Rightarrow> u8 list \<Rightarrow> eeprom_t" where
  "appendLog m log_id int_reg time queue =
     foldl (appendLog_page log_id int_reg time queue) m [0..<unat LOG_PAGES_PER_EVENT]"

text \<open>
  The over-threshold branch of the main loop: the identifier is the current log count,
  \<open>int_reg\<close> and \<open>time\<close> are the interrupt register and the timestamp read from the
  hardware; after the append the FIFO is reset and the flag is cleared.
\<close>

definition main_over_threshold :: "psoc \<Rightarrow> u8 \<Rightarrow> u16 \<Rightarrow> psoc" where
  "main_over_threshold s int_reg time =
     (let log_id = EEPROM_retrieveLogCount (eeprom s);
          s1 = s\<lparr>eeprom := appendLog (eeprom s) log_id int_reg time (IMU_log_queue s)\<rparr>;
          s2 = s1\<lparr>imu_regs := IMU_ResetFIFO (imu_regs s1)\<rparr>
      in s2\<lparr>IMU_over_threshold_flag := 0\<rparr>)"

text \<open>
  The rest of the main loop and the sensor's interrupt routine, and the states the
  firmware can reach. \<open>POT_Read_Value\<close> maps the reading \<open>raw\<close> of the ADC (an
  \<open>int16_t\<close>) to the new send flag; the bounds are \<open>POT_MID_RANGE - POT_MID_RANGE/2\<close>
  and \<open>POT_MID_RANGE + POT_MID_RANGE/2\<close>, that is 64 and 190. \<open>IMU_DataSend\<close> gives
  the bytes sent for one raw burst. \<open>CUSTOM_ISR_IMU\<close> takes the two status registers it
  reads from the sensor. The mode handler of the main loop changes the state above only
  in \<open>CONFIG_MODE\<close>, where it reads the knob (the RGB LED is not part of the state);
  the data-ready branch takes the raw burst read from the FIFO.
\<close>

definition POT_Read_Value :: "u16 \<Rightarrow> u8 \<Rightarrow> u8" where
  "POT_Read_Value raw oldFlag =
     (let raw1 = (if sint raw > 255 then 255 else if sint raw < 0 then 0 else raw);
          pot_val = (ucast (raw1 AND 0xFF) :: u8)
      in if pot_val < 64 then 0 else if pot_val > 190 then 1 else oldFlag)"

definition IMU_DataSend :: "u8 list \<Rightarrow> u8 list" where
  "IMU_DataSend buffer =
     (let high_reg_data = IMU_high_reg_data buffer
      in concat (map (\<lambda>i. [0xA0, high_reg_data ! (i * 3), high_reg_data ! (i * 3 + 1),
                             high_reg_data ! (i * 3 + 2), 0xC0]) [0..<32]))"

definition CUSTOM_ISR_IMU :: "psoc \<Rightarrow> u8 \<Rightarrow> u8 \<Rightarrow> psoc" where
  "CUSTOM_ISR_IMU s fifo_src int1_src =
     (let s1 = (if fifo_src AND 0x40 \<noteq> 0 then s\<lparr>IMU_data_ready_flag := 1\<rparr> else s)
      in if int1_src AND 0x40 \<noteq> 0 then s1\<lparr>IMU_over_threshold_flag := 1\<rparr> else s1)"

definition main_mode_handler :: "psoc \<Rightarrow> u16 \<Rightarrow> psoc" where
  "main_mode_handler s raw =
     (if button_state s = CONFIG_MODE
      then s\<lparr>send_flag := POT_Read_Value raw (send_flag s)\<rparr> else s)"

definition main_data_ready :: "psoc \<Rightarrow> u8 list \<Rightarrow> psoc" where
  "main_data_ready s buffer =
     (let s1 = s\<lparr>IMU_log_queue := IMU_StoreFIFO (IMU_log_queue s) buffer\<rparr>;
          s2 = (if EEPROM_retrieveSendFlag (eeprom s1) = 1
                then s1\<lparr>uart_tx := uart_tx s1 @ IMU_DataSend buffer\<rparr> else s1);
          s3 = s2\<lparr>imu_regs := IMU_ResetFIFO (imu_regs s2)\<rparr>
      in s3\<lparr>IMU_data_ready_flag := 0\<rparr>)"

section \<open>Power-on and the states the firmware reaches\<close>

text \<open>
  At power-on the global variables are zero (the queue holds 288 zero bytes, the button
  state is \<open>STOP_MODE\<close>), the PWM of the on-board LED is off and nothing has been
  sent yet; only the EEPROM keeps what it held, and the sensor has whatever its registers
  hold. The firmware then runs the setup of \<open>main\<close>; from there on each step is one
  of the four interrupt routines or one of the three parts of the main loop.
\<close>

definition power_on :: "eeprom_t \<Rightarrow> imu_regs_t \<Rightarrow> psoc" where
  "power_on m regs =
     \<lparr>button_state = 0, send_flag = 0, IMU_data_ready_flag = 0, IMU_over_threshold_flag = 0,
      IMU_log_queue = replicate LIS3DH_BYTES_IN_LOG_BUFFER 0, eeprom = m, imu_regs = regs,
      pwm_notify_enabled = False, pwm_notify_compare = 0, uart_tx = []\<rparr>"

inductive reachable :: "psoc \<Rightarrow> bool" where
  boot: "reachable (main_setup (power_on m regs))"
| long_press: "reachable s \<Longrightarrow> reachable (CUSTOM_ISR_CONFIG s)"
| double_click: "reachable s \<Longrightarrow> reachable (CUSTOM_ISR_START s)"
| remote: "reachable s \<Longrightarrow> reachable (CUSTOM_ISR_RX s op_code arg)"
| sensor: "reachable s \<Longrightarrow> reachable (CUSTOM_ISR_IMU s fifo_src int1_src)"
| mode_handler: "reachable s \<Longrightarrow> reachable (main_mode_handler s raw)"
| data_ready:
    "reachable s \<Longrightarrow> IMU_data_ready_flag s = 1 \<Longrightarrow> length buffer = LIS3DH_BYTES_IN_FIFO \<Longrightarrow>
     reachable (main_data_ready s buffer)"
| over_threshold:
    "reachable s \<Longrightarrow> IMU_over_threshold_flag s = 1 \<Longrightarrow>
     reachable (main_over_threshold s int_reg time)"

section \<open>Auxiliary functions and concrete states\<close>

text \<open>
  The three flag writers \<open>EEPROM_saveStartStopState\<close>, \<open>EEPROM_saveConfigFlag\<close>
  and \<open>EEPROM_saveSendFlag\<close> differ only in the bit they write. \<open>save_flag k r\<close> is
  their common shape on the control byte: bit \<open>k\<close> is set or cleared, and bit \<open>r\<close>
  (the reset flag) is cleared when it was set.
\<close>

definition save_flag :: "nat \<Rightarrow> nat \<Rightarrow> eeprom_t \<Rightarrow> u8 \<Rightarrow> eeprom_t" where
  "save_flag k r m f =
     (let c = (if f = 1 then m 0 OR push_bit k 1 else m 0 AND NOT (push_bit k 1));
          m1 = m(0 := c)
      in if c AND push_bit r 1 \<noteq> 0 then m1(0 := m1 0 AND NOT (push_bit r 1)) else m1)"

text \<open>Concrete states for the examples: a store and a register file of zero bytes.\<close>

definition eeprom_zero :: eeprom_t where "eeprom_zero = (\<lambda>a. 0)"

definition imu_regs_zero :: imu_regs_t where "imu_regs_zero = (\<lambda>a. 0)"

text \<open>A store in which start was the last Start/Stop state saved.\<close>

definition eeprom_started :: eeprom_t where
  "eeprom_started = EEPROM_saveStartStopState eeprom_zero 1"

text \<open>The page counter as a number.\<close>

definition pages :: "eeprom_t \<Rightarrow> nat" where
  "pages m = unat (EEPROM_retrieveLogPages m)"

text \<open>
  The 64 bytes that \<open>EEPROM_storeLogMessage\<close> hands to \<open>EEPROM_storeLogData\<close>, and
  the store after a list of messages has been stored one after the other.
\<close>

definition encode_page :: "log_t \<Rightarrow> u8 list" where
  "encode_page msg = LOG_unpackMessage (replicate 64 0) msg"

definition store_msgs :: "eeprom_t \<Rightarrow> log_t list \<Rightarrow> eeprom_t" where
  "store_msgs m msgs = foldl EEPROM_storeLogMessage m msgs"

text \<open>
  The slice of the queue that goes into page \<open>i\<close> of a log (what \<open>IMU_getPayload\<close>
  returns for the indices 0 to 4 on a queue of 288 bytes), and the five messages of one
  log.
\<close>

definition queue_page :: "u8 list \<Rightarrow> nat \<Rightarrow> u8 list" where
  "queue_page q i =
     (if i = 4 then take 48 q @ replicate 12 0 else take 60 (drop (228 - 60 * i) q))"

definition log_messages :: "u8 \<Rightarrow> u8 \<Rightarrow> u16 \<Rightarrow> u8 list \<Rightarrow> log_t list" where
  "log_messages lid ireg t q = map (\<lambda>i. LOG_createMessage lid ireg t (queue_page q i)) [0..<5]"

text \<open>
  Stores whose page counter reads 508 and 510, all other bytes zero, and a queue filled
  with the byte 7.
\<close>

definition eeprom_508 :: eeprom_t where
  "eeprom_508 = eeprom_zero(CTRL_REG_LOG_PAGES_HIGH := 1, CTRL_REG_LOG_PAGES_LOW := 0xFC)"

definition eeprom_510 :: eeprom_t where
  "eeprom_510 = eeprom_zero(CTRL_REG_LOG_PAGES_HIGH := 1, CTRL_REG_LOG_PAGES_LOW := 0xFE)"

definition queue_sevens :: "u8 list" where
  "queue_sevens = replicate LIS3DH_BYTES_IN_LOG_BUFFER 7"

text \<open>A store whose bytes all read 0xFF.\<close>

definition eeprom_ones :: eeprom_t where "eeprom_ones = (\<lambda>a. 0xFF)"

definition eeprom_51_events :: eeprom_t where
  "eeprom_51_events =
     eeprom (((\<lambda>s. main_over_threshold s 0x6A 0x1234) ^^ 51)
        (main_setup (power_on eeprom_zero imu_regs_zero)))"

definition eeprom_511 :: eeprom_t where
  "eeprom_511 = eeprom_zero(CTRL_REG_LOG_PAGES_HIGH := 1, CTRL_REG_LOG_PAGES_LOW := 0xFF)"

text \<open>
  The reduced burst that \<open>IMU_StoreFIFO\<close> puts in front of the queue, a raw burst of
  192 equal bytes, and the queue of zero bytes that the firmware starts with.
\<close>

definition reduce :: "u8 list \<Rightarrow> u8 list" where
  "reduce buffer = IMU_down_sampled_data (IMU_high_reg_data buffer)"

definition raw_burst :: "u8 \<Rightarrow> u8 list" where
  "raw_burst v = replicate LIS3DH_BYTES_IN_FIFO v"

definition queue_zero :: "u8 list" where
  "queue_zero = replicate LIS3DH_BYTES_IN_LOG_BUFFER 0"

section \<open>Facts about the copies\<close>

lemma length_memcpy [simp]: "length (memcpy dst doff src soff n) = length dst"
proof -
  have "length (foldl (\<lambda>d k. d[doff + k := src ! (soff + k)]) dst ks) = length dst" for ks
    by (induction ks arbitrary: dst) simp_all
  then show ?thesis by (simp add: memcpy_def)
qed

lemma nth_memcpy:
  "i < length dst \<Longrightarrow>
   memcpy dst doff src soff n ! i =
     (if doff \<le> i \<and> i < doff + n then src ! (soff + (i - doff)) else dst ! i)"
proof (induction n)
  case 0
  then show ?case by (auto simp: memcpy_def)
next
  case (Suc n)
  have step: "memcpy dst doff src soff (Suc n) =
              (memcpy dst doff src soff n)[doff + n := src ! (soff + n)]"
    by (simp add: memcpy_def)
  show ?case
  proof (cases "i = doff + n")
    case True
    with Suc.prems show ?thesis by (simp add: step)
  next
    case False
    with Suc show ?thesis by (auto simp: step)
  qed
qed

lemma memcpy_whole:
  "length dst = n \<Longrightarrow> n \<le> length src - soff \<Longrightarrow> soff \<le> length src \<Longrightarrow>
   memcpy dst 0 src soff n = take n (drop soff src)"
  by (rule nth_equalityI) (simp_all add: nth_memcpy)

lemma length_LOG_unpackMessage [simp]:
  "length (LOG_unpackMessage buffer message) = length buffer"
  by (simp add: LOG_unpackMessage_def Let_def)

lemma LOG_unpackMessage_layout:
  assumes "length buffer = 64" and "length (data r) = 60"
  shows "LOG_unpackMessage buffer r =
           [logID r, intReg r, ucast (timestamp r AND 0xFF),
            ucast (drop_bit 8 (timestamp r) AND 0xFF)] @ data r"
proof (rule nth_equalityI)
  show "length (LOG_unpackMessage buffer r) =
        length ([logID r, intReg r, ucast (timestamp r AND 0xFF),
                 ucast (drop_bit 8 (timestamp r) AND 0xFF)] @ data r)"
    using assms by simp
next
  fix i assume "i < length (LOG_unpackMessage buffer r)"
  then have i: "i < 64" using assms by simp
  have four: "Suc (Suc (Suc (Suc 0))) = 4" by simp
  consider "i = 0" | "i = 1" | "i = 2" | "i = 3" | "4 \<le> i" by linarith
  then show "LOG_unpackMessage buffer r ! i =
        ([logID r, intReg r, ucast (timestamp r AND 0xFF),
          ucast (drop_bit 8 (timestamp r) AND 0xFF)] @ data r) ! i"
    using i assms
    by cases
      (simp_all add: LOG_unpackMessage_def Let_def nth_memcpy LOG_MESSAGE_DATA_BYTE_def
        nth_append nth_Cons' four)
qed

lemma ff_mask16: "(0xFF::u16) = mask 8"
  by (simp add: mask_eq_exp_minus_1)

lemma timestamp_bytes:
  fixes t :: u16
  shows "push_bit 8 (ucast (ucast (drop_bit 8 t AND 0xFF) :: u8)) OR
         ucast (ucast (t AND 0xFF) :: u8) = t"
  unfolding ff_mask16
  by (rule bit_word_eqI) (auto simp: bit_simps)

section \<open>Log codec\<close>

text \<open>
  C6. Codec round trip: for every well-formed log record \<open>r\<close> (its data field holds 60
  bytes), packing the buffer that \<open>LOG_unpackMessage\<close> produced gives \<open>r\<close> back; the
  64 byte buffer holds the identifier, the interrupt register, the low and then the high
  byte of the timestamp, and the 60 payload bytes verbatim, and the timestamp is rebuilt
  as a little-endian 16 bit value.
\<close>

theorem codec_round_trip:
  assumes "log_wf r" and "length buffer = LOG_MESSAGE_TOT_BYTE" and "log_wf m0"
  shows "LOG_packMessage m0 (LOG_unpackMessage buffer r) = r
       \<and> length (LOG_unpackMessage buffer r) = 64
       \<and> LOG_unpackMessage buffer r ! 0 = logID r
       \<and> LOG_unpackMessage buffer r ! 1 = intReg r
       \<and> LOG_unpackMessage buffer r ! 2 = ucast (timestamp r AND 0xFF)
       \<and> LOG_unpackMessage buffer r ! 3 = ucast (drop_bit 8 (timestamp r) AND 0xFF)
       \<and> drop 4 (LOG_unpackMessage buffer r) = data r
       \<and> timestamp (LOG_packMessage m0 (LOG_unpackMessage buffer r)) =
           push_bit 8 (ucast (LOG_unpackMessage buffer r ! 3))
             OR ucast (LOG_unpackMessage buffer r ! 2)"
proof -
  from assms have len: "length buffer = 64" "length (data r) = 60" "length (data m0) = 60"
    by (simp_all add: log_wf_def LOG_MESSAGE_TOT_BYTE_def LOG_MESSAGE_DATA_BYTE_def)
  note lay = LOG_unpackMessage_layout [OF len(1) len(2)]
  have d: "memcpy (data m0) 0 (LOG_unpackMessage buffer r) 4 60 = data r"
    using len by (simp add: memcpy_whole lay)
  have "LOG_packMessage m0 (LOG_unpackMessage buffer r) = r"
    using d by (simp add: LOG_packMessage_def LOG_MESSAGE_DATA_BYTE_def lay timestamp_bytes)
  moreover have "timestamp (LOG_packMessage m0 (LOG_unpackMessage buffer r)) =
           push_bit 8 (ucast (LOG_unpackMessage buffer r ! 3))
             OR ucast (LOG_unpackMessage buffer r ! 2)"
    by (simp add: LOG_packMessage_def)
  ultimately show ?thesis
    using len by (simp add: lay)
qed

theorem codec_round_trip_witness:
  "log_wf \<lparr>logID = 3, intReg = 0x6A, timestamp = 0x1234, data = replicate 60 7\<rparr>
   \<and> length (replicate 64 (0::u8)) = LOG_MESSAGE_TOT_BYTE
   \<and> LOG_packMessage
        \<lparr>logID = 0, intReg = 0, timestamp = 0, data = replicate 60 0\<rparr>
        (LOG_unpackMessage (replicate 64 0)
           \<lparr>logID = 3, intReg = 0x6A, timestamp = 0x1234, data = replicate 60 7\<rparr>)
      = \<lparr>logID = 3, intReg = 0x6A, timestamp = 0x1234, data = replicate 60 7\<rparr>"
  using codec_round_trip
    [of "\<lparr>logID = 3, intReg = 0x6A, timestamp = 0x1234, data = replicate 60 7\<rparr>"
        "replicate 64 0"
        "\<lparr>logID = 0, intReg = 0, timestamp = 0, data = replicate 60 0\<rparr>"]
  by (simp add: log_wf_def LOG_MESSAGE_TOT_BYTE_def LOG_MESSAGE_DATA_BYTE_def)

section \<open>The control byte\<close>

lemma bit_flag_mask: "bit (2 ^ k :: u8) n = (n = k \<and> k < 8)"
  by (auto simp: bit_exp_iff)

lemma flag_read:
  fixes c :: u8
  assumes "k < 8"
  shows "drop_bit k (c AND push_bit k 1) AND 1 = of_bool (bit c k)"
proof (rule bit_word_eqI)
  fix n assume "n < LENGTH(8)"
  show "bit (drop_bit k (c AND push_bit k 1) AND 1) n = bit (of_bool (bit c k) :: u8) n"
    using assms by (cases "n = 0") (simp_all add: bit_and_iff bit_drop_bit_eq bit_flag_mask bit_1_iff)
qed

lemma flag_test:
  fixes c :: u8
  assumes "k < 8"
  shows "(c AND push_bit k 1 \<noteq> 0) = bit c k"
proof
  assume nz: "c AND push_bit k 1 \<noteq> 0"
  show "bit c k"
  proof (rule ccontr)
    assume "\<not> bit c k"
    then have "c AND push_bit k 1 = 0"
      by (intro bit_word_eqI) (auto simp: bit_and_iff bit_flag_mask)
    with nz show False by simp
  qed
next
  assume "bit c k"
  then have "bit (c AND push_bit k 1) k" using assms
    by (simp add: bit_and_iff bit_flag_mask)
  then show "c AND push_bit k 1 \<noteq> 0" by auto
qed

lemma bit_set_flag:
  fixes c :: u8
  shows "k < 8 \<Longrightarrow> bit (c OR push_bit k 1) j = (bit c j \<or> j = k)"
  by (auto simp: bit_or_iff bit_flag_mask)

lemma bit_clear_flag:
  fixes c :: u8
  shows "k < 8 \<Longrightarrow> bit (c AND NOT (push_bit k 1)) j = (bit c j \<and> j \<noteq> k)"
  by (auto simp: bit_and_iff bit_not_iff bit_flag_mask dest: bit_imp_le_length)

lemma start_bit: "EEPROM_retrieveStartStopState m = of_bool (bit (m 0) 0)"
  unfolding EEPROM_retrieveStartStopState_def EEPROM_readByte_def CTRL_REG_PSOC_STATUS_def
    CTRL_REG_PSOC_SET_START_def CTRL_REG_PSOC_START_STOP_SHIFT_def
  by (rule flag_read) simp


lemma send_bit: "EEPROM_retrieveSendFlag m = of_bool (bit (m 0) 2)"
  unfolding EEPROM_retrieveSendFlag_def EEPROM_readByte_def CTRL_REG_PSOC_STATUS_def
    CTRL_REG_PSOC_SET_SEND_FLAG_def CTRL_REG_PSOC_SEND_FLAG_SHIFT_def
  by (rule flag_read) simp

lemma reset_bit: "EEPROM_retrieveResetFlag m = of_bool (bit (m 0) 3)"
  unfolding EEPROM_retrieveResetFlag_def EEPROM_readByte_def CTRL_REG_PSOC_STATUS_def
    CTRL_REG_PSOC_SET_RESET_FLAG_def CTRL_REG_PSOC_RESET_FLAG_SHIFT_def
  by (rule flag_read) simp

lemma save_flag_other: "a \<noteq> 0 \<Longrightarrow> save_flag k r m f a = m a"
  by (simp add: save_flag_def Let_def)

lemma save_flag_bits:
  assumes "k < 8" "r < 8" "k \<noteq> r"
  shows "bit (save_flag k r m f 0) j =
     (if j = k then f = 1 else if j = r then False else bit (m 0) j)"
proof -
  define c where "c = (if f = 1 then m 0 OR push_bit k 1 else m 0 AND NOT (push_bit k 1))"
  have c: "bit c j = (if j = k then f = 1 else bit (m 0) j)" for j
    using assms by (auto simp: c_def bit_set_flag bit_clear_flag simp del: push_bit_of_1)
  have "save_flag k r m f 0 = (if bit c r then c AND NOT (push_bit r 1) else c)"
    unfolding save_flag_def Let_def c_def [symmetric] flag_test [OF assms(2)]
    by simp
  then show ?thesis
    using assms by (auto simp: c bit_clear_flag simp del: push_bit_of_1)
qed

lemma saveResetFlag_eq:
  "EEPROM_saveResetFlag m f =
     m(0 := if f = 1 then m 0 OR push_bit 3 1 else m 0 AND NOT (push_bit 3 1))"
  unfolding EEPROM_saveResetFlag_def EEPROM_readByte_def EEPROM_writeByte_def
    CTRL_REG_PSOC_STATUS_def CTRL_REG_PSOC_SET_RESET_FLAG_def CTRL_REG_PSOC_RESET_FLAG_SHIFT_def
    Let_def
  by (rule refl)

lemma saveStartStopState_eq: "EEPROM_saveStartStopState m f = save_flag 0 3 m f"
  unfolding EEPROM_saveStartStopState_def saveResetFlag_eq save_flag_def
  unfolding EEPROM_readByte_def EEPROM_writeByte_def
    CTRL_REG_PSOC_STATUS_def CTRL_REG_PSOC_SET_RESET_FLAG_def CTRL_REG_PSOC_RESET_FLAG_SHIFT_def
    CTRL_REG_PSOC_SET_START_def CTRL_REG_PSOC_START_STOP_SHIFT_def Let_def
  by (simp only: zero_neq_one if_False)

lemma saveConfigFlag_eq: "EEPROM_saveConfigFlag m f = save_flag 1 3 m f"
  unfolding EEPROM_saveConfigFlag_def saveResetFlag_eq save_flag_def
  unfolding EEPROM_readByte_def EEPROM_writeByte_def
    CTRL_REG_PSOC_STATUS_def CTRL_REG_PSOC_SET_RESET_FLAG_def CTRL_REG_PSOC_RESET_FLAG_SHIFT_def
    CTRL_REG_PSOC_SET_CONFIG_def CTRL_REG_PSOC_CONFIG_MODE_SHIFT_def Let_def
  by (simp only: zero_neq_one if_False)

lemma saveSendFlag_eq: "EEPROM_saveSendFlag m f = save_flag 2 3 m f"
  unfolding EEPROM_saveSendFlag_def saveResetFlag_eq save_flag_def
  unfolding EEPROM_readByte_def EEPROM_writeByte_def
    CTRL_REG_PSOC_STATUS_def CTRL_REG_PSOC_SET_RESET_FLAG_def CTRL_REG_PSOC_RESET_FLAG_SHIFT_def
    CTRL_REG_PSOC_SET_SEND_FLAG_def CTRL_REG_PSOC_SEND_FLAG_SHIFT_def Let_def
  by (simp only: zero_neq_one if_False)

section \<open>Power cycle and configuration mode\<close>

lemmas mode_defs = STOP_MODE_def START_MODE_def CONFIG_MODE_def

lemma start_stop_saved:
  "EEPROM_retrieveStartStopState (EEPROM_saveStartStopState m v) = of_bool (v = 1)"
  by (simp add: start_bit saveStartStopState_eq save_flag_bits)



lemma start_stop_kept_send:
  "EEPROM_retrieveStartStopState (EEPROM_saveSendFlag m v) = EEPROM_retrieveStartStopState m"
  by (simp add: start_bit saveSendFlag_eq save_flag_bits)


lemma main_setup_sel:
  "button_state (main_setup s) = STOP_MODE"
  "eeprom (main_setup s) = EEPROM_saveStartStopState (eeprom s) 0"
  "imu_regs (main_setup s) = IMU_Init (imu_regs s)"
  by (simp_all add: main_setup_def Let_def)

lemma IMU_Stop_off: "IMU_acquisition_off (IMU_Stop regs)"
  by (simp add: IMU_acquisition_off_def IMU_Stop_def IMU_WriteReg_def Let_def
      LIS3DH_CTRL_REG1_def LIS3DH_CTRL_REG3_def LIS3DH_CTRL_REG5_def LIS3DH_FIFO_CTRL_REG_def
      LIS3DH_INT1_CFG_def)

text \<open>
  C1, as the code has it. A power cycle does not resume the persisted Start/Stop state:
  the setup of \<open>main\<close> always leaves the controller in \<open>STOP_MODE\<close> and
  overwrites the persisted Start/Stop flag with stop, whatever the control byte held.
  What persists until then is the flag itself: \<open>EEPROM_retrieveStartStopState\<close>
  reads back start after start was saved and stop after stop was saved. The flag never
  reads as \<open>CONFIG_MODE\<close>, and the controller never boots into it.
\<close>

theorem power_cycle_boots_in_stop:
  "button_state (main_setup s) = STOP_MODE
   \<and> button_state (main_setup s) \<noteq> CONFIG_MODE
   \<and> EEPROM_retrieveStartStopState (eeprom (main_setup s)) = STOP_MODE
   \<and> EEPROM_retrieveStartStopState (EEPROM_saveStartStopState m 1) = START_MODE
   \<and> EEPROM_retrieveStartStopState (EEPROM_saveStartStopState m 0) = STOP_MODE
   \<and> EEPROM_retrieveStartStopState m \<noteq> CONFIG_MODE"
  by (simp add: main_setup_sel start_stop_saved mode_defs) (simp add: start_bit)

text \<open>
  C1 as the specification states it fails when start was persisted: the control byte
  reads start, and the controller after the power cycle is not in \<open>START_MODE\<close>, nor
  does the flag read start any more.
\<close>

theorem power_cycle_counterexample:
  "EEPROM_retrieveStartStopState eeprom_started = START_MODE
   \<and> button_state (main_setup (power_on eeprom_started imu_regs_zero)) \<noteq> START_MODE
   \<and> EEPROM_retrieveStartStopState (eeprom (main_setup (power_on eeprom_started imu_regs_zero)))
       \<noteq> START_MODE"
  by (simp add: eeprom_started_def main_setup_sel start_stop_saved mode_defs)

lemma ISR_CONFIG_enter:
  assumes "button_state s \<noteq> CONFIG_MODE"
  shows "button_state (CUSTOM_ISR_CONFIG s) = CONFIG_MODE"
    "eeprom (CUSTOM_ISR_CONFIG s) = EEPROM_saveConfigFlag (eeprom s) 1"
    "imu_regs (CUSTOM_ISR_CONFIG s) =
       (if button_state s = START_MODE then IMU_Stop (imu_regs s) else imu_regs s)"
  using assms by (simp_all add: CUSTOM_ISR_CONFIG_def LED_Notify_Config_def Let_def)

lemma ISR_CONFIG_leave:
  assumes "button_state s = CONFIG_MODE"
  shows "button_state (CUSTOM_ISR_CONFIG s) = EEPROM_retrieveStartStopState (eeprom s)"
    "eeprom (CUSTOM_ISR_CONFIG s) =
       EEPROM_saveSendFlag (EEPROM_saveConfigFlag (eeprom s) 0) (send_flag s)"
    "imu_regs (CUSTOM_ISR_CONFIG s) =
       (if EEPROM_retrieveStartStopState (eeprom s) = START_MODE
        then IMU_Start (imu_regs s) else imu_regs s)"
  using assms
  by (simp_all add: CUSTOM_ISR_CONFIG_def LED_Notify_Stop_def LED_Notify_Start_def Let_def
      mode_defs)



section \<open>The page counter and the page writes as numbers\<close>

lemma unat_u8_lt: "unat (b :: u8) < 256"
  using unsigned_less [of b, where ?'a = nat] by simp

lemma unat_ucast_u8_u16: "unat (ucast (b :: u8) :: u16) = unat b"
  using unat_u8_lt [of b] by (simp add: unsigned_ucast_eq take_bit_nat_eq_self_iff)

lemma unat_u16_lt: "unat (b :: u16) < 65536"
  using unsigned_less [of b, where ?'a = nat] by simp

lemma hi_lo_disjoint: "push_bit 8 (ucast (hi :: u8) :: u16) AND ucast (lo :: u8) = 0"
  by (rule bit_word_eqI) (auto simp: bit_and_iff bit_push_bit_iff bit_ucast_iff dest: bit_imp_le_length)

lemma unat_hi_lo:
  "unat (push_bit 8 (ucast (hi :: u8) :: u16) OR ucast (lo :: u8)) = 256 * unat hi + unat lo"
proof -
  have "push_bit 8 (ucast hi :: u16) OR ucast lo = push_bit 8 (ucast hi) + ucast lo"
    by (rule disjunctive_add_eq_or [symmetric]) (rule hi_lo_disjoint)
  moreover have "unat (push_bit 8 (ucast hi :: u16)) = 256 * unat hi"
    using unat_u8_lt [of hi]
    by (simp add: push_bit_eq_mult unat_word_ariths unat_ucast_u8_u16)
  ultimately show ?thesis
    using unat_u8_lt [of hi] unat_u8_lt [of lo]
    by (simp add: unat_word_ariths unat_ucast_u8_u16)
qed

lemma pages_unat:
  "unat (EEPROM_retrieveLogPages m) = 256 * unat (m 0x16) + unat (m 8)"
  by (simp add: EEPROM_retrieveLogPages_def EEPROM_readByte_def CTRL_REG_LOG_PAGES_HIGH_def
      CTRL_REG_LOG_PAGES_LOW_def unat_hi_lo)

lemma writePage_nat:
  assumes "unat addr + n \<le> 65536"
  shows "EEPROM_writePage m addr dat n a =
     (if unat addr \<le> unat a \<and> unat a < unat addr + n then dat ! (unat a - unat addr) else m a)"
  using assms unat_u16_lt [of a] unat_u16_lt [of addr]
  by (auto simp: EEPROM_writePage_def unat_sub_if_size word_size)

lemma lo_byte: "unat (ucast ((w :: u16) AND 0xFF) :: u8) = unat w mod 256"
proof -
  have "(ucast (w AND mask 8) :: u8) = ucast w"
    by (rule bit_word_eqI) (auto simp: bit_ucast_iff bit_and_iff bit_mask_iff)
  then show ?thesis
    unfolding ff_mask16 by (simp add: unsigned_ucast_eq take_bit_eq_mod)
qed

lemma hi_byte: "unat (ucast (drop_bit 8 (w :: u16) AND 0xFF) :: u8) = unat w div 256"
proof -
  have "(ucast (drop_bit 8 w AND mask 8) :: u8) = ucast (drop_bit 8 w)"
    by (rule bit_word_eqI) (auto simp: bit_ucast_iff bit_and_iff bit_mask_iff)
  moreover have "unat w div 256 < 256" using unat_u16_lt [of w] by simp
  ultimately show ?thesis
    unfolding ff_mask16
    by (simp add: unsigned_ucast_eq unsigned_drop_bit_eq drop_bit_eq_div take_bit_eq_mod
        unat_div)
qed

lemma pages_eq: "pages m = 256 * unat (m 0x16) + unat (m 8)"
  by (simp add: pages_def pages_unat)

lemma u16_eq_numeral: "unat (a :: u16) = n \<Longrightarrow> n < 65536 \<Longrightarrow> a = of_nat n"
  by (metis of_nat_unat ucast_id)

lemma unat_lt_2:
  fixes x :: u16
  assumes "unat x < 2"
  shows "x = 0 \<or> x = 1"
proof (cases "unat x = 0")
  case True
  then show ?thesis by (simp add: unat_eq_0)
next
  case False
  with assms have "unat x = 1" by simp
  then have "x = 1" using u16_eq_numeral [of x 1] by simp
  then show ?thesis by simp
qed

lemma writePage_counter:
  "EEPROM_writePage m 8 [b0, b1] 2 = m(8 := b0, 9 := b1)"
proof
  fix a :: u16
  consider "a = 8" | "a = 9" | "a \<noteq> 8" "a \<noteq> 9" by blast
  then show "EEPROM_writePage m 8 [b0, b1] 2 a = (m(8 := b0, 9 := b1)) a"
  proof cases
    case 1
    then show ?thesis by (simp add: EEPROM_writePage_def)
  next
    case 2
    then show ?thesis by (simp add: EEPROM_writePage_def)
  next
    case 3
    have "\<not> unat (a - 8) < 2"
    proof
      assume "unat (a - 8) < 2"
      then have "a - 8 = 0 \<or> a - 8 = 1" by (rule unat_lt_2)
      then have "a = 8 \<or> a = 9" by auto
      with 3 show False by simp
    qed
    with 3 show ?thesis by (simp add: EEPROM_writePage_def)
  qed
qed

lemma inc_noop: "\<not> pages m < 512 \<Longrightarrow> EEPROM_incrementLogCounter m = m"
  by (simp add: EEPROM_incrementLogCounter_def Let_def pages_def SPI_EEPROM_PAGE_COUNT_def
      word_less_nat_alt)

lemma inc_step:
  assumes "pages m < 512"
  shows "EEPROM_incrementLogCounter m =
         m(8 := ucast ((EEPROM_retrieveLogPages m + 1) AND 0xFF),
           9 := ucast (drop_bit 8 (EEPROM_retrieveLogPages m + 1) AND 0xFF))"
  using assms
  by (simp add: EEPROM_incrementLogCounter_def Let_def pages_def SPI_EEPROM_PAGE_COUNT_def
      word_less_nat_alt CTRL_REG_LOG_PAGES_LOW_def writePage_counter)

lemma inc_other: "a \<noteq> 8 \<Longrightarrow> a \<noteq> 9 \<Longrightarrow> EEPROM_incrementLogCounter m a = m a"
  by (cases "pages m < 512") (simp_all add: inc_noop inc_step)

lemma unat_pages_suc:
  "pages m < 512 \<Longrightarrow> unat (EEPROM_retrieveLogPages m + 1) = pages m + 1"
  by (simp add: pages_def unat_word_ariths)

lemma inc_low:
  assumes "pages m < 512"
  shows "EEPROM_incrementLogCounter m 8 = m 8 + 1"
proof -
  have "unat (EEPROM_incrementLogCounter m 8) = (pages m + 1) mod 256"
    using assms by (simp add: inc_step lo_byte unat_pages_suc)
  also have "\<dots> = (unat (m 8) + 1) mod 256"
    by (simp add: pages_eq mod_simps)
  also have "\<dots> = unat (m 8 + 1)"
    by (simp add: unat_word_ariths)
  finally show ?thesis by (simp add: word_unat_eq_iff)
qed

lemma inc_pages_le:
  assumes "pages m \<le> 512"
  shows "pages (EEPROM_incrementLogCounter m) \<le> 512"
proof (cases "pages m < 512")
  case False
  with assms show ?thesis by (simp add: inc_noop)
next
  case True
  then have "unat (m 0x16) \<le> 1" by (simp add: pages_eq)
  moreover have "EEPROM_incrementLogCounter m 0x16 = m 0x16"
    by (simp add: inc_other)
  moreover have "unat (EEPROM_incrementLogCounter m 8) < 256" by (rule unat_u8_lt)
  ultimately show ?thesis
    by (simp add: pages_eq [of "EEPROM_incrementLogCounter m"])
qed

lemma page_addr_unat:
  "unat (LOG_DATA_BASE_ADDR + EEPROM_retrieveLogPages m * SPI_EEPROM_PAGE_SIZE)
     = (64 + pages m * 64) mod 65536"
  by (simp add: LOG_DATA_BASE_ADDR_def SPI_EEPROM_PAGE_SIZE_def pages_def unat_word_ariths
      mod_simps)

lemma store_valid:
  assumes "pages m \<le> 509"
  shows "EEPROM_storeLogData m d a =
     (if 64 + pages m * 64 \<le> unat a \<and> unat a < 128 + pages m * 64
      then d ! (unat a - (64 + pages m * 64)) else m a)"
proof -
  have u: "unat (LOG_DATA_BASE_ADDR + EEPROM_retrieveLogPages m * SPI_EEPROM_PAGE_SIZE)
        = 64 + pages m * 64"
    using assms by (simp add: page_addr_unat)
  have "EEPROM_storeLogData m d =
        EEPROM_writePage m
          (LOG_DATA_BASE_ADDR + EEPROM_retrieveLogPages m * SPI_EEPROM_PAGE_SIZE) d 64"
    using assms u
    by (simp add: EEPROM_storeLogData_def Let_def word_le_nat_alt SPI_EEPROM_SIZE_BYTE_def
        SPI_EEPROM_PAGE_SIZE_def)
  then show ?thesis
    using assms by (simp add: writePage_nat u)
qed

lemma store_skip:
  assumes "510 \<le> pages m" and "pages m \<le> 512"
  shows "EEPROM_storeLogData m d = m"
proof -
  have "unat (LOG_DATA_BASE_ADDR + EEPROM_retrieveLogPages m * SPI_EEPROM_PAGE_SIZE)
        = 64 + pages m * 64"
    using assms by (simp add: page_addr_unat)
  then show ?thesis
    using assms
    by (simp add: EEPROM_storeLogData_def Let_def word_le_nat_alt SPI_EEPROM_SIZE_BYTE_def
        SPI_EEPROM_PAGE_SIZE_def)
qed

lemma store_ctrl_page:
  assumes "pages m \<le> 512" and "unat a < 64"
  shows "EEPROM_storeLogData m d a = m a"
proof (cases "pages m \<le> 509")
  case True
  with assms show ?thesis by (simp add: store_valid)
next
  case False
  with assms show ?thesis by (simp add: store_skip)
qed

lemma store_pages: "pages m \<le> 512 \<Longrightarrow> pages (EEPROM_storeLogData m d) = pages m"
  by (simp add: pages_eq [of "EEPROM_storeLogData m d"] store_ctrl_page pages_eq [of m])

section \<open>Storing log pages\<close>

lemma length_encode_page [simp]: "length (encode_page msg) = 64"
  by (simp add: encode_page_def)

lemma slm_eq:
  "EEPROM_storeLogMessage m msg =
     EEPROM_incrementLogCounter (EEPROM_storeLogData m (encode_page msg))"
  by (simp add: EEPROM_storeLogMessage_def encode_page_def Let_def)

lemma slm_pages:
  assumes "pages m \<le> 511" and "unat (m 8) < 255"
  shows "pages (EEPROM_storeLogMessage m msg) = pages m + 1"
proof -
  let ?m1 = "EEPROM_storeLogData m (encode_page msg)"
  have p1: "pages ?m1 = pages m" using assms by (simp add: store_pages)
  have c: "?m1 8 = m 8" "?m1 0x16 = m 0x16"
    using assms by (simp_all add: store_ctrl_page)
  have lo: "EEPROM_incrementLogCounter ?m1 8 = m 8 + 1"
    using assms p1 c by (simp add: inc_low)
  have hi: "EEPROM_incrementLogCounter ?m1 0x16 = m 0x16"
    using c by (simp add: inc_other)
  have "unat (m 8 + 1) = unat (m 8) + 1"
    using assms(2) by (simp add: unat_word_ariths)
  then show ?thesis
    by (simp add: slm_eq pages_eq [of "EEPROM_incrementLogCounter ?m1"] lo hi pages_eq [of m])
qed

lemma not_counter_addr: "64 \<le> unat (a :: u16) \<Longrightarrow> a \<noteq> 8 \<and> a \<noteq> 9 \<and> a \<noteq> 0x16"
  by auto

lemma slm_data:
  assumes "pages m \<le> 509" and "64 \<le> unat a"
  shows "EEPROM_storeLogMessage m msg a =
     (if 64 + pages m * 64 \<le> unat a \<and> unat a < 128 + pages m * 64
      then encode_page msg ! (unat a - (64 + pages m * 64)) else m a)"
  using assms not_counter_addr [OF assms(2)]
  by (simp add: slm_eq inc_other store_valid)

lemma slm_ctrl:
  assumes "pages m \<le> 512" and "unat a < 64" and "a \<noteq> 8" and "a \<noteq> 9"
  shows "EEPROM_storeLogMessage m msg a = m a"
  using assms by (simp add: slm_eq inc_other store_ctrl_page)

lemma slm_low:
  assumes "pages m < 512"
  shows "EEPROM_storeLogMessage m msg 8 = m 8 + 1"
  using assms by (simp add: slm_eq inc_low store_pages store_ctrl_page)

lemma store_msgs_snoc:
  "store_msgs m (msgs @ [x]) = EEPROM_storeLogMessage (store_msgs m msgs) x"
  by (simp add: store_msgs_def)

lemma store_msgs_pages:
  "pages m + length msgs \<le> 510 \<Longrightarrow> unat (m 8) + length msgs \<le> 255 \<Longrightarrow>
   pages (store_msgs m msgs) = pages m + length msgs
   \<and> store_msgs m msgs 8 = m 8 + of_nat (length msgs)"
proof (induction msgs rule: rev_induct)
  case Nil
  then show ?case by (simp add: store_msgs_def)
next
  case (snoc x msgs)
  then have ih: "pages (store_msgs m msgs) = pages m + length msgs"
     "store_msgs m msgs 8 = m 8 + of_nat (length msgs)" by simp_all
  have "unat (m 8 + of_nat (length msgs)) = unat (m 8) + length msgs"
    using snoc.prems(2) by (simp add: unat_word_ariths unat_of_nat)
  then have lo: "unat (store_msgs m msgs 8) < 255"
    using snoc.prems(2) by (simp add: ih)
  have le: "pages (store_msgs m msgs) \<le> 511" using snoc.prems(1) by (simp add: ih)
  show ?case
    using le lo by (simp add: store_msgs_snoc slm_pages slm_low ih)
qed

lemma store_msgs_content:
  assumes "pages m + length msgs \<le> 510" and "unat (m 8) + length msgs \<le> 255"
      and "i < length msgs" and "k < 64" and "unat a = 64 + (pages m + i) * 64 + k"
  shows "store_msgs m msgs a = encode_page (msgs ! i) ! k"
  using assms
proof (induction msgs rule: rev_induct)
  case Nil
  then show ?case by simp
next
  case (snoc x msgs)
  have p: "pages (store_msgs m msgs) = pages m + length msgs"
    using snoc.prems by (simp add: store_msgs_pages)
  have a64: "64 \<le> unat a" using snoc.prems by simp
  have le: "pages (store_msgs m msgs) \<le> 509" using snoc.prems p by simp
  show ?case
  proof (cases "i = length msgs")
    case True
    with snoc.prems show ?thesis
      by (simp add: store_msgs_snoc slm_data [OF le a64] p)
  next
    case False
    with snoc.prems have i: "i < length msgs" by simp
    with snoc.prems have "unat a < 64 + (pages m + length msgs) * 64"
      by (simp add: algebra_simps)
    moreover have "store_msgs m msgs a = encode_page (msgs ! i) ! k"
      using snoc.prems i by (intro snoc.IH) simp_all
    ultimately show ?thesis
      using i by (simp add: store_msgs_snoc slm_data [OF le a64] p nth_append)
  qed
qed

lemma store_msgs_frame:
  assumes "pages m + length msgs \<le> 510" and "unat (m 8) + length msgs \<le> 255"
      and "unat a < 64 + pages m * 64 \<or> 64 + (pages m + length msgs) * 64 \<le> unat a"
      and "a \<noteq> 8" and "a \<noteq> 9"
  shows "store_msgs m msgs a = m a"
  using assms
proof (induction msgs rule: rev_induct)
  case Nil
  then show ?case by (simp add: store_msgs_def)
next
  case (snoc x msgs)
  have p: "pages (store_msgs m msgs) = pages m + length msgs"
    using snoc.prems by (simp add: store_msgs_pages)
  have ih: "store_msgs m msgs a = m a"
    using snoc.prems by (intro snoc.IH) auto
  show ?case
  proof (cases "64 \<le> unat a")
    case True
    have le: "pages (store_msgs m msgs) \<le> 509" using snoc.prems p by simp
    from snoc.prems(3) show ?thesis
      by (auto simp: store_msgs_snoc slm_data [OF le True] p ih)
  next
    case False
    have le: "pages (store_msgs m msgs) \<le> 512" using snoc.prems p by simp
    from False snoc.prems show ?thesis
      by (simp add: store_msgs_snoc slm_ctrl [OF le] ih)
  qed
qed

section \<open>Appending a log\<close>

lemma length_memset [simp]: "length (memset dst v n) = length dst"
proof -
  have "length (foldl (\<lambda>d k. d[k := v]) dst ks) = length dst" for ks
    by (induction ks arbitrary: dst) simp_all
  then show ?thesis by (simp add: memset_def)
qed

lemma nth_memset:
  "i < length dst \<Longrightarrow> memset dst v n ! i = (if i < n then v else dst ! i)"
proof (induction n)
  case 0
  then show ?case by (simp add: memset_def)
next
  case (Suc n)
  have step: "memset dst v (Suc n) = (memset dst v n)[n := v]"
    by (simp add: memset_def)
  from Suc show ?case
    by (cases "i = n") (auto simp: step)
qed

lemma memset_zeros: "memset (replicate n 0) 0 k = replicate n 0"
  by (rule nth_equalityI) (simp_all add: nth_memset)

lemma last_page_payload:
  assumes "length q = 288"
  shows "memcpy (replicate 60 0) 0 q 0 48 = take 48 q @ replicate 12 0"
  using assms by (intro nth_equalityI) (auto simp: nth_memcpy nth_append)

lemma getPayload_page:
  assumes "length q = 288" and "i < 5"
  shows "IMU_getPayload q (replicate 60 0) (of_nat i) = Some (queue_page q i)"
proof -
  from assms(2) consider "i = 0" | "i = 1" | "i = 2" | "i = 3" | "i = 4" by linarith
  then show ?thesis
    using assms(1)
    by cases
      (simp_all add: IMU_getPayload_def queue_page_def memcpy_whole memset_zeros
        last_page_payload)
qed

lemma length_queue_page: "length q = 288 \<Longrightarrow> i < 5 \<Longrightarrow> length (queue_page q i) = 60"
  by (auto simp: queue_page_def)

lemma createMessage_eq:
  "length p = 60 \<Longrightarrow>
   LOG_createMessage lid ireg t p = \<lparr>logID = lid, intReg = ireg, timestamp = t, data = p\<rparr>"
  by (simp add: LOG_createMessage_def LOG_insertPayload_def LOG_MESSAGE_DATA_BYTE_def
      memcpy_whole)

lemma encode_createMessage:
  "length p = 60 \<Longrightarrow>
   encode_page (LOG_createMessage lid ireg t p) =
     [lid, ireg, ucast (t AND 0xFF), ucast (drop_bit 8 t AND 0xFF)] @ p"
  by (simp add: createMessage_eq encode_page_def LOG_unpackMessage_layout)

lemma appendLog_eq:
  assumes "length q = 288"
  shows "appendLog m lid ireg t q = store_msgs m (log_messages lid ireg t q)"
proof -
  have "foldl (appendLog_page lid ireg t q) m xs =
        foldl EEPROM_storeLogMessage m
          (map (\<lambda>i. LOG_createMessage lid ireg t (queue_page q i)) xs)"
    if "\<forall>i \<in> set xs. i < 5" for xs m
    using that
    by (induction xs arbitrary: m)
      (simp_all add: appendLog_page_def LOG_MESSAGE_DATA_BYTE_def getPayload_page [OF assms])
  from this [of "[0..<5]" m] show ?thesis
    by (simp add: appendLog_def store_msgs_def log_messages_def LOG_PAGES_PER_EVENT_def)
qed

lemma length_log_messages [simp]: "length (log_messages lid ireg t q) = 5"
  by (simp add: log_messages_def)

lemma encode_log_messages:
  assumes "length q = 288" and "i < 5"
  shows "encode_page (log_messages lid ireg t q ! i) =
     [lid, ireg, ucast (t AND 0xFF), ucast (drop_bit 8 t AND 0xFF)] @ queue_page q i"
  using assms by (simp add: log_messages_def encode_createMessage length_queue_page)

lemma readPage_appendLog:
  assumes "length q = 288" and "pages m \<le> 505" and "unat (m 8) \<le> 250" and "i < 5"
  shows "EEPROM_readPage (appendLog m lid ireg t q)
           (LOG_DATA_BASE_ADDR + of_nat (pages m + i) * SPI_EEPROM_PAGE_SIZE) 64
         = [lid, ireg, ucast (t AND 0xFF), ucast (drop_bit 8 t AND 0xFF)] @ queue_page q i"
proof -
  let ?e = "[lid, ireg, ucast (t AND 0xFF), ucast (drop_bit 8 t AND 0xFF)] @ queue_page q i"
  have len: "length ?e = 64" using assms by (simp add: length_queue_page)
  have "appendLog m lid ireg t q (LOG_DATA_BASE_ADDR + of_nat (pages m + i) * SPI_EEPROM_PAGE_SIZE + of_nat k)
        = ?e ! k" if "k < 64" for k
  proof -
    have "unat (LOG_DATA_BASE_ADDR + of_nat (pages m + i) * SPI_EEPROM_PAGE_SIZE + of_nat k :: u16)
          = 64 + (pages m + i) * 64 + k"
      using assms that
      by (simp add: LOG_DATA_BASE_ADDR_def SPI_EEPROM_PAGE_SIZE_def unat_word_ariths unat_of_nat
          mod_simps)
    then show ?thesis
      using assms that
      by (simp add: appendLog_eq store_msgs_content [where i = i and k = k] encode_log_messages)
  qed
  then have "EEPROM_readPage (appendLog m lid ireg t q)
           (LOG_DATA_BASE_ADDR + of_nat (pages m + i) * SPI_EEPROM_PAGE_SIZE) 64
         = map (\<lambda>k. ?e ! k) [0..<64]"
    by (simp add: EEPROM_readPage_def)
  also have "\<dots> = ?e" using len map_nth [of ?e] by simp
  finally show ?thesis .
qed

lemma store_guard_fails:
  assumes "\<not> LOG_DATA_BASE_ADDR + EEPROM_retrieveLogPages m * SPI_EEPROM_PAGE_SIZE
             \<le> SPI_EEPROM_SIZE_BYTE - SPI_EEPROM_PAGE_SIZE"
  shows "EEPROM_storeLogData m d = m"
  using assms by (simp add: EEPROM_storeLogData_def Let_def)

lemma store_guard_holds:
  assumes "LOG_DATA_BASE_ADDR + EEPROM_retrieveLogPages m * SPI_EEPROM_PAGE_SIZE
             \<le> SPI_EEPROM_SIZE_BYTE - SPI_EEPROM_PAGE_SIZE"
  shows "EEPROM_storeLogData m d =
         EEPROM_writePage m
           (LOG_DATA_BASE_ADDR + EEPROM_retrieveLogPages m * SPI_EEPROM_PAGE_SIZE) d 64"
  using assms by (simp add: EEPROM_storeLogData_def Let_def SPI_EEPROM_PAGE_SIZE_def)

lemma readPage_writePage:
  assumes "length d = 64"
  shows "EEPROM_readPage (EEPROM_writePage m addr d 64) addr 64 = d"
proof -
  have "unat (of_nat k :: u16) = k" if "k < 64" for k
    using that by (simp add: unat_of_nat)
  then have "EEPROM_readPage (EEPROM_writePage m addr d 64) addr 64 = map (\<lambda>k. d ! k) [0..<64]"
    by (simp add: EEPROM_readPage_def EEPROM_writePage_def)
  also have "\<dots> = d" using assms map_nth [of d] by simp
  finally show ?thesis .
qed

lemma writePage_frame:
  "64 \<le> unat (a - addr) \<Longrightarrow> EEPROM_writePage m addr d 64 a = m a"
  by (simp add: EEPROM_writePage_def)

text \<open>
  C3, as the code has it. The space check is made for each page, not for the log:
  \<open>EEPROM_storeLogData\<close> leaves the store unchanged, and reports nothing, when the
  address \<open>LOG_DATA_BASE_ADDR + pageCount * 64\<close> lies beyond
  \<open>SPI_EEPROM_SIZE_BYTE - 64\<close>, and otherwise writes the 64 bytes of the page at that
  address and nothing else. When five pages are free (the page counter is at most 505)
  and the low byte of the counter is at most 250, the append of a log writes exactly
  five consecutive pages, each holding the identifier, the interrupt register, the two
  timestamp bytes and its 60 byte slice of the queue, changes no other byte but the two
  counter bytes, and raises the page counter by exactly 5. The slice of page \<open>i\<close> is
  what \<open>IMU_getPayload\<close> returns for the index \<open>i\<close>.
\<close>

theorem appendLog_guard_per_page:
  assumes "length queue = LIS3DH_BYTES_IN_LOG_BUFFER" and "length d = 64"
  shows
   "(\<not> LOG_DATA_BASE_ADDR + EEPROM_retrieveLogPages m * SPI_EEPROM_PAGE_SIZE
         \<le> SPI_EEPROM_SIZE_BYTE - SPI_EEPROM_PAGE_SIZE
      \<longrightarrow> EEPROM_storeLogData m d = m)
    \<and> (LOG_DATA_BASE_ADDR + EEPROM_retrieveLogPages m * SPI_EEPROM_PAGE_SIZE
         \<le> SPI_EEPROM_SIZE_BYTE - SPI_EEPROM_PAGE_SIZE
      \<longrightarrow> EEPROM_readPage (EEPROM_storeLogData m d)
            (LOG_DATA_BASE_ADDR + EEPROM_retrieveLogPages m * SPI_EEPROM_PAGE_SIZE) 64 = d
        \<and> (\<forall>a. 64 \<le> unat (a - (LOG_DATA_BASE_ADDR
                      + EEPROM_retrieveLogPages m * SPI_EEPROM_PAGE_SIZE))
               \<longrightarrow> EEPROM_storeLogData m d a = m a))
    \<and> (unat (EEPROM_retrieveLogPages m) \<le> 505
        \<and> unat (EEPROM_readByte m CTRL_REG_LOG_PAGES_LOW) \<le> 250
      \<longrightarrow> unat (EEPROM_retrieveLogPages (appendLog m lid ireg t queue))
            = unat (EEPROM_retrieveLogPages m) + 5
        \<and> (\<forall>i<5. EEPROM_readPage (appendLog m lid ireg t queue)
                    (LOG_DATA_BASE_ADDR
                       + of_nat (unat (EEPROM_retrieveLogPages m) + i) * SPI_EEPROM_PAGE_SIZE) 64
                  = [lid, ireg, ucast (t AND 0xFF), ucast (drop_bit 8 t AND 0xFF)]
                    @ queue_page queue i)
        \<and> (\<forall>a. (unat a < 64 + unat (EEPROM_retrieveLogPages m) * 64
                  \<or> 64 + (unat (EEPROM_retrieveLogPages m) + 5) * 64 \<le> unat a)
                \<and> a \<noteq> CTRL_REG_LOG_PAGES_LOW \<and> a \<noteq> CTRL_REG_LOG_PAGES_LOW + 1
               \<longrightarrow> appendLog m lid ireg t queue a = m a))
    \<and> (\<forall>i<5. IMU_getPayload queue (replicate 60 0) (of_nat i) = Some (queue_page queue i))"
proof (intro conjI impI allI)
  assume "\<not> LOG_DATA_BASE_ADDR + EEPROM_retrieveLogPages m * SPI_EEPROM_PAGE_SIZE
         \<le> SPI_EEPROM_SIZE_BYTE - SPI_EEPROM_PAGE_SIZE"
  then show "EEPROM_storeLogData m d = m" by (rule store_guard_fails)
next
  assume g: "LOG_DATA_BASE_ADDR + EEPROM_retrieveLogPages m * SPI_EEPROM_PAGE_SIZE
         \<le> SPI_EEPROM_SIZE_BYTE - SPI_EEPROM_PAGE_SIZE"
  show "EEPROM_readPage (EEPROM_storeLogData m d)
            (LOG_DATA_BASE_ADDR + EEPROM_retrieveLogPages m * SPI_EEPROM_PAGE_SIZE) 64 = d"
    using assms(2) by (simp add: store_guard_holds [OF g] readPage_writePage)
next
  fix a
  assume g: "LOG_DATA_BASE_ADDR + EEPROM_retrieveLogPages m * SPI_EEPROM_PAGE_SIZE
         \<le> SPI_EEPROM_SIZE_BYTE - SPI_EEPROM_PAGE_SIZE"
    and "64 \<le> unat (a - (LOG_DATA_BASE_ADDR
                      + EEPROM_retrieveLogPages m * SPI_EEPROM_PAGE_SIZE))"
  then show "EEPROM_storeLogData m d a = m a"
    by (simp add: store_guard_holds [OF g] writePage_frame)
next
  assume h: "unat (EEPROM_retrieveLogPages m) \<le> 505
        \<and> unat (EEPROM_readByte m CTRL_REG_LOG_PAGES_LOW) \<le> 250"
  have q: "length queue = 288"
    using assms(1)
    by (simp add: LIS3DH_BYTES_IN_LOG_BUFFER_def LIS3DH_BYTES_IN_FIFO_HIGH_REG_def
        LIS3DH_DOWN_SAMPLE_def LIS3DH_FIFO_STORED_def)
  from h have p: "pages m + 5 \<le> 510" "unat (m 8) + 5 \<le> 255"
    by (simp_all add: pages_def EEPROM_readByte_def CTRL_REG_LOG_PAGES_LOW_def)
  show "unat (EEPROM_retrieveLogPages (appendLog m lid ireg t queue))
            = unat (EEPROM_retrieveLogPages m) + 5"
    using store_msgs_pages [of m "log_messages lid ireg t queue"] p
    by (simp add: appendLog_eq [OF q] pages_def)
next
  fix i :: nat
  assume h: "unat (EEPROM_retrieveLogPages m) \<le> 505
        \<and> unat (EEPROM_readByte m CTRL_REG_LOG_PAGES_LOW) \<le> 250" and i: "i < 5"
  have q: "length queue = 288"
    using assms(1)
    by (simp add: LIS3DH_BYTES_IN_LOG_BUFFER_def LIS3DH_BYTES_IN_FIFO_HIGH_REG_def
        LIS3DH_DOWN_SAMPLE_def LIS3DH_FIFO_STORED_def)
  from h have p: "pages m \<le> 505" "unat (m 8) \<le> 250"
    by (simp_all add: pages_def EEPROM_readByte_def CTRL_REG_LOG_PAGES_LOW_def)
  show "EEPROM_readPage (appendLog m lid ireg t queue)
                    (LOG_DATA_BASE_ADDR
                       + of_nat (unat (EEPROM_retrieveLogPages m) + i) * SPI_EEPROM_PAGE_SIZE) 64
                  = [lid, ireg, ucast (t AND 0xFF), ucast (drop_bit 8 t AND 0xFF)]
                    @ queue_page queue i"
    using readPage_appendLog [OF q p i] by (simp add: pages_def)
next
  fix a
  assume h: "unat (EEPROM_retrieveLogPages m) \<le> 505
        \<and> unat (EEPROM_readByte m CTRL_REG_LOG_PAGES_LOW) \<le> 250"
    and a: "(unat a < 64 + unat (EEPROM_retrieveLogPages m) * 64
                  \<or> 64 + (unat (EEPROM_retrieveLogPages m) + 5) * 64 \<le> unat a)
                \<and> a \<noteq> CTRL_REG_LOG_PAGES_LOW \<and> a \<noteq> CTRL_REG_LOG_PAGES_LOW + 1"
  have q: "length queue = 288"
    using assms(1)
    by (simp add: LIS3DH_BYTES_IN_LOG_BUFFER_def LIS3DH_BYTES_IN_FIFO_HIGH_REG_def
        LIS3DH_DOWN_SAMPLE_def LIS3DH_FIFO_STORED_def)
  from h have p: "pages m + 5 \<le> 510" "unat (m 8) + 5 \<le> 255"
    by (simp_all add: pages_def EEPROM_readByte_def CTRL_REG_LOG_PAGES_LOW_def)
  from a have a': "unat a < 64 + pages m * 64 \<or> 64 + (pages m + 5) * 64 \<le> unat a"
     "a \<noteq> 8" "a \<noteq> 9"
    by (simp_all add: pages_def CTRL_REG_LOG_PAGES_LOW_def)
  show "appendLog m lid ireg t queue a = m a"
    using store_msgs_frame [of m "log_messages lid ireg t queue" a] p a'
    by (simp add: appendLog_eq [OF q])
next
  fix i :: nat
  assume i: "i < 5"
  have q: "length queue = 288"
    using assms(1)
    by (simp add: LIS3DH_BYTES_IN_LOG_BUFFER_def LIS3DH_BYTES_IN_FIFO_HIGH_REG_def
        LIS3DH_DOWN_SAMPLE_def LIS3DH_FIFO_STORED_def)
  show "IMU_getPayload queue (replicate 60 0) (of_nat i) = Some (queue_page queue i)"
    by (rule getPayload_page [OF q i])
qed

lemmas eeprom_consts =
  LOG_DATA_BASE_ADDR_def SPI_EEPROM_PAGE_SIZE_def SPI_EEPROM_SIZE_BYTE_def
  SPI_EEPROM_PAGE_COUNT_def CTRL_REG_LOG_PAGES_LOW_def CTRL_REG_LOG_PAGES_HIGH_def
  CTRL_REG_PSOC_STATUS_def LOG_PAGES_PER_EVENT_def

lemma queue_sevens_eq: "queue_sevens = replicate 288 7"
  by (simp add: queue_sevens_def LIS3DH_BYTES_IN_LOG_BUFFER_def
      LIS3DH_BYTES_IN_FIFO_HIGH_REG_def LIS3DH_DOWN_SAMPLE_def LIS3DH_FIFO_STORED_def)

lemma pages_zero: "EEPROM_retrieveLogPages eeprom_zero = 0"
  by (simp add: EEPROM_retrieveLogPages_def EEPROM_readByte_def eeprom_zero_def)

lemma pages_510: "EEPROM_retrieveLogPages eeprom_510 = 510"
  by (simp add: EEPROM_retrieveLogPages_def EEPROM_readByte_def eeprom_510_def eeprom_consts)

lemma pages_508: "EEPROM_retrieveLogPages eeprom_508 = 508"
  by (simp add: EEPROM_retrieveLogPages_def EEPROM_readByte_def eeprom_508_def eeprom_consts)

theorem appendLog_guard_per_page_witness:
  "length queue_sevens = LIS3DH_BYTES_IN_LOG_BUFFER \<and> length (replicate 64 (1::u8)) = 64
   \<and> \<not> LOG_DATA_BASE_ADDR + EEPROM_retrieveLogPages eeprom_510 * SPI_EEPROM_PAGE_SIZE
         \<le> SPI_EEPROM_SIZE_BYTE - SPI_EEPROM_PAGE_SIZE
   \<and> EEPROM_storeLogData eeprom_510 (replicate 64 1) = eeprom_510
   \<and> LOG_DATA_BASE_ADDR + EEPROM_retrieveLogPages eeprom_zero * SPI_EEPROM_PAGE_SIZE
         \<le> SPI_EEPROM_SIZE_BYTE - SPI_EEPROM_PAGE_SIZE
   \<and> EEPROM_readPage (EEPROM_storeLogData eeprom_zero (replicate 64 1)) LOG_DATA_BASE_ADDR 64
       = replicate 64 1
   \<and> EEPROM_storeLogData eeprom_zero (replicate 64 1) CTRL_REG_PSOC_STATUS
       = eeprom_zero CTRL_REG_PSOC_STATUS
   \<and> unat (EEPROM_retrieveLogPages eeprom_zero) \<le> 505
   \<and> unat (EEPROM_readByte eeprom_zero CTRL_REG_LOG_PAGES_LOW) \<le> 250
   \<and> unat (EEPROM_retrieveLogPages (appendLog eeprom_zero 3 0x6A 0x1234 queue_sevens)) = 5
   \<and> EEPROM_readPage (appendLog eeprom_zero 3 0x6A 0x1234 queue_sevens) LOG_DATA_BASE_ADDR 64
       = [3, 0x6A, 0x34, 0x12] @ replicate 60 7
   \<and> appendLog eeprom_zero 3 0x6A 0x1234 queue_sevens CTRL_REG_PSOC_STATUS
       = eeprom_zero CTRL_REG_PSOC_STATUS
   \<and> IMU_getPayload queue_sevens (replicate 60 0) 0 = Some (replicate 60 7)"
proof -
  have l: "length queue_sevens = LIS3DH_BYTES_IN_LOG_BUFFER" "length (replicate 64 (1::u8)) = 64"
    by (simp_all add: queue_sevens_def)
  have g1: "\<not> LOG_DATA_BASE_ADDR + EEPROM_retrieveLogPages eeprom_510 * SPI_EEPROM_PAGE_SIZE
         \<le> SPI_EEPROM_SIZE_BYTE - SPI_EEPROM_PAGE_SIZE"
    by (simp add: pages_510 eeprom_consts)
  have g2: "LOG_DATA_BASE_ADDR + EEPROM_retrieveLogPages eeprom_zero * SPI_EEPROM_PAGE_SIZE
         \<le> SPI_EEPROM_SIZE_BYTE - SPI_EEPROM_PAGE_SIZE"
    by (simp add: pages_zero eeprom_consts)
  have g3: "unat (EEPROM_retrieveLogPages eeprom_zero) \<le> 505
     \<and> unat (EEPROM_readByte eeprom_zero CTRL_REG_LOG_PAGES_LOW) \<le> 250"
    by (simp add: pages_zero) (simp add: EEPROM_readByte_def eeprom_zero_def)
  note t1 = appendLog_guard_per_page [OF l, of eeprom_510 3 "0x6A" "0x1234"]
  note t2 = appendLog_guard_per_page [OF l, of eeprom_zero 3 "0x6A" "0x1234"]
  from t1 g1 have c1: "EEPROM_storeLogData eeprom_510 (replicate 64 1) = eeprom_510"
    by blast
  from t2 g2 have c2:
    "EEPROM_readPage (EEPROM_storeLogData eeprom_zero (replicate 64 1)) LOG_DATA_BASE_ADDR 64
       = replicate 64 1"
    "EEPROM_storeLogData eeprom_zero (replicate 64 1) CTRL_REG_PSOC_STATUS
       = eeprom_zero CTRL_REG_PSOC_STATUS"
    by (simp_all add: pages_zero eeprom_consts)
  from t2 g3 have c3:
    "unat (EEPROM_retrieveLogPages (appendLog eeprom_zero 3 0x6A 0x1234 queue_sevens)) = 5"
    "\<forall>i<5. EEPROM_readPage (appendLog eeprom_zero 3 0x6A 0x1234 queue_sevens)
                    (LOG_DATA_BASE_ADDR
                       + of_nat (unat (EEPROM_retrieveLogPages eeprom_zero) + i)
                         * SPI_EEPROM_PAGE_SIZE) 64
                  = [3, 0x6A, ucast ((0x1234 :: u16) AND 0xFF),
                     ucast (drop_bit 8 (0x1234 :: u16) AND 0xFF)]
                    @ queue_page queue_sevens i"
    "appendLog eeprom_zero 3 0x6A 0x1234 queue_sevens CTRL_REG_PSOC_STATUS
       = eeprom_zero CTRL_REG_PSOC_STATUS"
    by (simp_all add: pages_zero eeprom_consts)
  from c3(2) [rule_format, of 0] have c4:
    "EEPROM_readPage (appendLog eeprom_zero 3 0x6A 0x1234 queue_sevens) LOG_DATA_BASE_ADDR 64
       = [3, 0x6A, 0x34, 0x12] @ replicate 60 7"
    by (simp add: pages_zero queue_page_def queue_sevens_eq)
  from t2 have "\<forall>i<5. IMU_getPayload queue_sevens (replicate 60 0) (of_nat i)
                  = Some (queue_page queue_sevens i)"
    by blast
  from this [rule_format, of 0] have c5:
    "IMU_getPayload queue_sevens (replicate 60 0) 0 = Some (replicate 60 7)"
    by (simp add: queue_page_def queue_sevens_eq)
  from l g1 g2 g3 c1 c2 c3(1,3) c4 c5 show ?thesis by simp
qed

lemma slm_hi:
  assumes "pages m \<le> 512"
  shows "EEPROM_storeLogMessage m msg 0x16 = m 0x16"
  using assms by (simp add: slm_eq inc_other store_ctrl_page)

lemma slm_data_gen:
  assumes "pages m \<le> 512" and "64 \<le> unat a"
  shows "EEPROM_storeLogMessage m msg a =
     (if pages m \<le> 509 \<and> 64 + pages m * 64 \<le> unat a \<and> unat a < 128 + pages m * 64
      then encode_page msg ! (unat a - (64 + pages m * 64)) else m a)"
proof (cases "pages m \<le> 509")
  case True
  then show ?thesis using assms by (simp add: slm_data)
next
  case False
  with assms not_counter_addr [OF assms(2)] show ?thesis
    by (simp add: slm_eq inc_other store_skip)
qed

lemma store_msgs_5:
  "store_msgs m [x0, x1, x2, x3, x4] =
     EEPROM_storeLogMessage (EEPROM_storeLogMessage (EEPROM_storeLogMessage
       (EEPROM_storeLogMessage (EEPROM_storeLogMessage m x0) x1) x2) x3) x4"
  by (simp add: store_msgs_def)

lemma log_messages_5:
  "log_messages lid ireg t q =
    [LOG_createMessage lid ireg t (queue_page q 0), LOG_createMessage lid ireg t (queue_page q 1),
     LOG_createMessage lid ireg t (queue_page q 2), LOG_createMessage lid ireg t (queue_page q 3),
     LOG_createMessage lid ireg t (queue_page q 4)]"
proof -
  have "[0..<5] = [0, 1, 2, 3, 4]" by (simp add: upt_rec)
  then show ?thesis by (simp add: log_messages_def)
qed

text \<open>
  C3 as the specification states it fails when fewer than five pages are free. With a
  page counter of 508 the address of the third page of the log is already invalid, yet the
  append is not skipped: the first page of the log is written at page 508, and the store
  has changed.
\<close>

theorem appendLog_partial_counterexample:
  "unat (EEPROM_retrieveLogPages eeprom_508) = 508
   \<and> \<not> LOG_DATA_BASE_ADDR + 510 * SPI_EEPROM_PAGE_SIZE
         \<le> SPI_EEPROM_SIZE_BYTE - SPI_EEPROM_PAGE_SIZE
   \<and> EEPROM_readByte eeprom_508 (LOG_DATA_BASE_ADDR + 508 * SPI_EEPROM_PAGE_SIZE) = 0
   \<and> EEPROM_readByte (appendLog eeprom_508 7 0x6A 0x1234 queue_sevens)
        (LOG_DATA_BASE_ADDR + 508 * SPI_EEPROM_PAGE_SIZE) = 7
   \<and> appendLog eeprom_508 7 0x6A 0x1234 queue_sevens \<noteq> eeprom_508"
proof -
  define x where "x i = LOG_createMessage 7 0x6A 0x1234 (queue_page queue_sevens i)" for i
  define m1 where "m1 = EEPROM_storeLogMessage eeprom_508 (x 0)"
  define m2 where "m2 = EEPROM_storeLogMessage m1 (x 1)"
  define m3 where "m3 = EEPROM_storeLogMessage m2 (x 2)"
  define m4 where "m4 = EEPROM_storeLogMessage m3 (x 3)"
  define m5 where "m5 = EEPROM_storeLogMessage m4 (x 4)"
  let ?a = "0x7F40 :: u16"
  have q: "length queue_sevens = 288" by (simp add: queue_sevens_eq)
  have app: "appendLog eeprom_508 7 0x6A 0x1234 queue_sevens = m5"
    by (simp add: appendLog_eq [OF q] log_messages_5 store_msgs_5 m5_def m4_def m3_def m2_def
        m1_def x_def)
  have e0: "encode_page (x 0) ! 0 = 7"
    using q by (simp add: x_def encode_createMessage length_queue_page)
  have s0: "eeprom_508 0x16 = 1" "eeprom_508 8 = 0xFC" "eeprom_508 ?a = 0"
    by (simp_all add: eeprom_508_def eeprom_zero_def eeprom_consts)
  have p0: "pages eeprom_508 = 508" by (simp add: pages_eq s0)
  have s1: "m1 0x16 = 1" "m1 8 = 0xFD" "m1 ?a = 7"
    using p0 e0 by (simp_all add: m1_def slm_hi slm_low slm_data_gen s0)
  have p1: "pages m1 = 509" by (simp add: pages_eq s1)
  have s2: "m2 0x16 = 1" "m2 8 = 0xFE" "m2 ?a = 7"
    using p1 by (simp_all add: m2_def slm_hi slm_low slm_data_gen s1)
  have p2: "pages m2 = 510" by (simp add: pages_eq s2)
  have s3: "m3 0x16 = 1" "m3 8 = 0xFF" "m3 ?a = 7"
    using p2 by (simp_all add: m3_def slm_hi slm_low slm_data_gen s2)
  have p3: "pages m3 = 511" by (simp add: pages_eq s3)
  have s4: "m4 0x16 = 1" "m4 8 = 0" "m4 ?a = 7"
    using p3 by (simp_all add: m4_def slm_hi slm_low slm_data_gen s3)
  have p4: "pages m4 = 256" by (simp add: pages_eq s4)
  have s5: "m5 ?a = 7"
    using p4 by (simp add: m5_def slm_data_gen s4)
  have ne: "m5 \<noteq> eeprom_508"
  proof
    assume "m5 = eeprom_508"
    then have "m5 ?a = eeprom_508 ?a" by simp
    then show False by (simp add: s5 s0)
  qed
  show ?thesis
    using ne s5 s0 by (simp add: app pages_508 EEPROM_readByte_def eeprom_consts)
qed

section \<open>The page counter over many appends\<close>

lemma store_msgs_counter:
  assumes "m 0x16 = 0"
  shows "store_msgs m msgs 0x16 = 0 \<and> store_msgs m msgs 8 = m 8 + of_nat (length msgs)"
proof (induction msgs rule: rev_induct)
  case Nil
  from assms show ?case by (simp add: store_msgs_def)
next
  case (snoc x msgs)
  then have "pages (store_msgs m msgs) = unat (store_msgs m msgs 8)"
    by (simp add: pages_eq)
  then have "pages (store_msgs m msgs) < 256"
    using unat_u8_lt [of "store_msgs m msgs 8"] by simp
  with snoc show ?case
    by (simp add: store_msgs_snoc slm_hi slm_low)
qed

lemma appendLog_counter:
  assumes "length q = 288" and "m 0x16 = 0"
  shows "appendLog m lid ireg t q 0x16 = 0" and "appendLog m lid ireg t q 8 = m 8 + 5"
  using store_msgs_counter [of m "log_messages lid ireg t q"] assms(2)
  by (simp_all add: appendLog_eq [OF assms(1)])

lemma main_over_threshold_sel:
  "eeprom (main_over_threshold s ireg t) =
     appendLog (eeprom s) (EEPROM_retrieveLogCount (eeprom s)) ireg t (IMU_log_queue s)"
  "IMU_log_queue (main_over_threshold s ireg t) = IMU_log_queue s"
  by (simp_all add: main_over_threshold_def Let_def)

lemma events_counter:
  assumes "length (IMU_log_queue s) = 288" and "eeprom s 0x16 = 0"
  shows "length (IMU_log_queue (((\<lambda>s. main_over_threshold s ireg t) ^^ n) s)) = 288
       \<and> eeprom (((\<lambda>s. main_over_threshold s ireg t) ^^ n) s) 0x16 = 0
       \<and> eeprom (((\<lambda>s. main_over_threshold s ireg t) ^^ n) s) 8 = eeprom s 8 + of_nat (5 * n)"
proof (induction n)
  case 0
  from assms show ?case by simp
next
  case (Suc n)
  then show ?case
    by (simp add: main_over_threshold_sel appendLog_counter algebra_simps)
qed

lemma logCount_unat:
  "unat (EEPROM_retrieveLogCount m) = (pages m div 5) mod 256"
  by (simp add: EEPROM_retrieveLogCount_def LOG_PAGES_PER_EVENT_def unsigned_ucast_eq
      take_bit_eq_mod unat_div pages_def)

lemma boot_state:
  "length (IMU_log_queue (main_setup (power_on m regs))) = 288"
  "eeprom (main_setup (power_on m regs)) 0x16 = m 0x16"
  "eeprom (main_setup (power_on m regs)) 8 = m 8"
  by (simp_all add: main_setup_def power_on_def Let_def saveStartStopState_eq save_flag_other
      LIS3DH_BYTES_IN_LOG_BUFFER_def LIS3DH_BYTES_IN_FIFO_HIGH_REG_def LIS3DH_DOWN_SAMPLE_def
      LIS3DH_FIFO_STORED_def)

text \<open>Up to 51 logs the count is right: the page counter has not left its low byte.\<close>

lemma log_count_up_to_51:
  assumes "n \<le> 51"
  shows "EEPROM_retrieveLogCount
     (eeprom (((\<lambda>s. main_over_threshold s ireg t) ^^ n)
        (main_setup (power_on eeprom_zero regs)))) = of_nat n"
proof -
  let ?s0 = "main_setup (power_on eeprom_zero regs)"
  let ?m = "eeprom (((\<lambda>s. main_over_threshold s ireg t) ^^ n) ?s0)"
  have b: "length (IMU_log_queue ?s0) = 288" "eeprom ?s0 0x16 = 0" "eeprom ?s0 8 = 0"
    by (simp_all add: boot_state) (simp_all add: eeprom_zero_def)
  from events_counter [OF b(1) b(2), where ireg = ireg and t = t and n = n]
  have c: "?m 0x16 = 0" "?m 8 = of_nat (5 * n)"
    by (simp_all add: b)
  have "unat (of_nat (5 * n) :: u8) = 5 * n"
    using assms by (simp only: unat_of_nat) simp
  then have "pages ?m = 5 * n"
    by (simp only: pages_eq c) simp
  then have "unat (EEPROM_retrieveLogCount ?m) = n"
    using assms by (simp add: logCount_unat)
  moreover have "unat (of_nat n :: u8) = n"
    using assms by (simp only: unat_of_nat) simp
  ultimately show ?thesis by (simp only: word_unat_eq_iff)
qed

text \<open>
  C2. Log count consistency fails on the code: starting from a blank store, 51 logged
  events give a log count of 51, and the 52nd event, which takes the page counter from
  255 to 260, leaves a log count of 0. \<open>EEPROM_incrementLogCounter\<close> writes the high
  byte of the counter at address 0x0009 and \<open>EEPROM_retrieveLogPages\<close> reads it at
  0x0016, so the counter that is read back has only its low byte.
\<close>

theorem log_count_wraps_at_256_pages:
  "EEPROM_retrieveLogCount
     (eeprom (((\<lambda>s. main_over_threshold s 0x6A 0x1234) ^^ 51)
        (main_setup (power_on eeprom_zero imu_regs_zero)))) = 51
   \<and> EEPROM_retrieveLogCount
     (eeprom (((\<lambda>s. main_over_threshold s 0x6A 0x1234) ^^ 52)
        (main_setup (power_on eeprom_zero imu_regs_zero)))) = 0
   \<and> EEPROM_readByte
     (eeprom (((\<lambda>s. main_over_threshold s 0x6A 0x1234) ^^ 52)
        (main_setup (power_on eeprom_zero imu_regs_zero)))) CTRL_REG_LOG_PAGES_HIGH = 0"
proof -
  let ?s0 = "main_setup (power_on eeprom_zero imu_regs_zero)"
  let ?run = "\<lambda>n. eeprom (((\<lambda>s. main_over_threshold s 0x6A 0x1234) ^^ n) ?s0)"
  have b: "length (IMU_log_queue ?s0) = 288" "eeprom ?s0 0x16 = 0" "eeprom ?s0 8 = 0"
    by (simp_all add: boot_state) (simp_all add: eeprom_zero_def)
  note c = events_counter [OF b(1) b(2), where ireg = "0x6A" and t = "0x1234"]
  have c51: "?run 51 0x16 = 0" "?run 51 8 = 255"
    using c [where n = 51] by (simp_all add: b)
  have c52: "?run 52 0x16 = 0" "?run 52 8 = 4"
    using c [where n = 52] by (simp_all add: b)
  have p51: "pages (?run 51) = 255" by (simp add: pages_eq c51)
  have p52: "pages (?run 52) = 4" by (simp add: pages_eq c52)
  have "unat (EEPROM_retrieveLogCount (?run 51)) = 51"
    by (simp add: logCount_unat p51)
  then have r51: "EEPROM_retrieveLogCount (?run 51) = 51"
    by (simp add: word_unat_eq_iff)
  have "unat (EEPROM_retrieveLogCount (?run 52)) = 0"
    by (simp add: logCount_unat p52)
  then have r52: "EEPROM_retrieveLogCount (?run 52) = 0"
    by (simp add: unat_eq_0)
  show ?thesis
    using r51 r52 c52 by (simp add: EEPROM_readByte_def eeprom_consts)
qed

section \<open>Erasing the memory\<close>

declare EEPROM_resetMemory_loop.simps [simp del]

lemma writePage_zeros:
  assumes "unat a + 64 \<le> 65536"
  shows "EEPROM_writePage m a (memset (replicate 64 0) 0x00 64) 64 x =
          (if unat a \<le> unat x \<and> unat x < unat a + 64 then 0 else m x)"
  using assms by (auto simp: memset_zeros writePage_nat)

lemma resetMemory_loop_eq:
  "unat i \<le> 512 \<Longrightarrow> unat a + (512 - unat i) * 64 < 65536 \<Longrightarrow>
   EEPROM_resetMemory_loop i a m x =
     (if unat a \<le> unat x \<and> unat x < unat a + (512 - unat i) * 64 then 0 else m x)"
proof (induction i a m rule: EEPROM_resetMemory_loop.induct)
  case (1 i page_addr m)
  show ?case
  proof (cases "i < SPI_EEPROM_PAGE_COUNT")
    case False
    then have "512 \<le> unat i"
      by (simp add: SPI_EEPROM_PAGE_COUNT_def word_less_nat_alt)
    with False "1.prems" show ?thesis
      by (auto simp: EEPROM_resetMemory_loop.simps [of i page_addr m])
  next
    case True
    then have i: "unat i < 512"
      by (simp add: SPI_EEPROM_PAGE_COUNT_def word_less_nat_alt)
    then have i1: "unat (i + 1) = unat i + 1"
      by (simp add: unat_word_ariths)
    from i "1.prems" have a: "unat page_addr + 64 < 65536" by simp
    then have a1: "unat (page_addr + 64) = unat page_addr + 64"
      by (simp add: unat_word_ariths)
    have ih: "EEPROM_resetMemory_loop (i + 1) (page_addr + 64)
               (EEPROM_writePage m page_addr (memset (replicate 64 0) 0x00 64) 64) x =
              (if unat page_addr + 64 \<le> unat x
                  \<and> unat x < unat page_addr + 64 + (512 - (unat i + 1)) * 64
               then 0
               else EEPROM_writePage m page_addr (memset (replicate 64 0) 0x00 64) 64 x)"
      using "1.IH" [OF True] i "1.prems"
      by (simp add: SPI_EEPROM_PAGE_SIZE_def i1 a1)
    have step: "EEPROM_resetMemory_loop i page_addr m =
                EEPROM_resetMemory_loop (i + 1) (page_addr + 64)
                  (EEPROM_writePage m page_addr (memset (replicate 64 0) 0x00 64) 64)"
      using True
      by (simp add: EEPROM_resetMemory_loop.simps [of i page_addr m] SPI_EEPROM_PAGE_SIZE_def)
    have n: "(512 - unat i) * 64 = 64 + (512 - (unat i + 1)) * 64"
      using i by simp
    show ?thesis
      using a by (auto simp: step ih writePage_zeros n)
  qed
qed

lemma resetMemory_loop_all:
  "EEPROM_resetMemory_loop 1 0 m x = (if unat x < 32704 then 0 else m x)"
  using resetMemory_loop_eq [of 1 0 m x] by simp

lemma resetMemory_byte:
  "EEPROM_resetMemory m x =
     (if x = 0 then 8 else if unat x < 32704 then 0 else m x)"
  by (simp add: EEPROM_resetMemory_def saveResetFlag_eq resetMemory_loop_all)

lemma resetMemory_pages: "pages (EEPROM_resetMemory m) = 0"
  by (simp add: pages_eq resetMemory_byte)

lemma readPage_const:
  assumes "\<And>k. k < n \<Longrightarrow> m (a + of_nat k) = v"
  shows "EEPROM_readPage m a n = replicate n v"
  using assms by (intro nth_equalityI) (simp_all add: EEPROM_readPage_def)

text \<open>
  C4. The erase misses the last page: \<open>EEPROM_resetMemory\<close> runs its loop from
  \<open>i = 1\<close> to 511 with the page address starting at 0, so it clears the pages 0 to 510
  and leaves page 511 as it was. On a store whose bytes all read 0xFF, the log count
  after the erase is 0, the reset flag reads 1, page 510 reads as zeros, and page 511
  still reads as 64 bytes 0xFF.
\<close>

theorem resetMemory_leaves_last_page:
  "EEPROM_retrieveLogCount (EEPROM_resetMemory eeprom_ones) = 0
   \<and> EEPROM_retrieveResetFlag (EEPROM_resetMemory eeprom_ones) = 1
   \<and> EEPROM_readPage (EEPROM_resetMemory eeprom_ones) (510 * SPI_EEPROM_PAGE_SIZE) 64
       = replicate 64 0
   \<and> EEPROM_readPage (EEPROM_resetMemory eeprom_ones) (511 * SPI_EEPROM_PAGE_SIZE) 64
       = replicate 64 0xFF"
proof -
  let ?m = "EEPROM_resetMemory eeprom_ones"
  have "unat (EEPROM_retrieveLogCount ?m) = 0"
    by (simp add: logCount_unat resetMemory_pages)
  then have c: "EEPROM_retrieveLogCount ?m = 0" by (simp add: unat_eq_0)
  have f: "EEPROM_retrieveResetFlag ?m = 1"
    by (simp add: reset_bit resetMemory_byte)
  have u: "unat (of_nat k :: u16) = k" if "k < 64" for k
    using that by (simp add: unat_of_nat)
  have "?m (510 * 64 + of_nat k) = 0" if "k < 64" for k
  proof -
    have "unat (510 * 64 + of_nat k :: u16) = 32640 + k"
      using that by (simp add: unat_word_ariths u)
    moreover from this have "(510 * 64 + of_nat k :: u16) \<noteq> 0" by auto
    ultimately show ?thesis using that by (simp add: resetMemory_byte)
  qed
  then have p510: "EEPROM_readPage ?m (510 * SPI_EEPROM_PAGE_SIZE) 64 = replicate 64 0"
    by (simp add: SPI_EEPROM_PAGE_SIZE_def readPage_const)
  have "?m (511 * 64 + of_nat k) = 0xFF" if "k < 64" for k
  proof -
    have "unat (511 * 64 + of_nat k :: u16) = 32704 + k"
      using that by (simp add: unat_word_ariths u)
    moreover from this have "(511 * 64 + of_nat k :: u16) \<noteq> 0" by auto
    ultimately show ?thesis using that by (simp add: resetMemory_byte eeprom_ones_def)
  qed
  then have p511: "EEPROM_readPage ?m (511 * SPI_EEPROM_PAGE_SIZE) 64 = replicate 64 0xFF"
    by (simp add: SPI_EEPROM_PAGE_SIZE_def readPage_const)
  from c f p510 p511 show ?thesis by simp
qed

section \<open>The bound on the page counter\<close>

lemma slm_pages_le:
  "pages m \<le> 512 \<Longrightarrow> pages (EEPROM_storeLogMessage m msg) \<le> 512"
  by (simp add: slm_eq inc_pages_le store_pages)

lemma appendLog_page_pages_le:
  "pages m \<le> 512 \<Longrightarrow> pages (appendLog_page lid ireg t q m i) \<le> 512"
  by (simp add: appendLog_page_def slm_pages_le split: option.split)

lemma appendLog_pages_le:
  assumes "pages m \<le> 512"
  shows "pages (appendLog m lid ireg t q) \<le> 512"
proof -
  have "pages (foldl (appendLog_page lid ireg t q) m xs) \<le> 512" for xs
    using assms by (induction xs arbitrary: m) (simp_all add: appendLog_page_pages_le)
  then show ?thesis by (simp add: appendLog_def)
qed

lemma save_flag_pages: "pages (save_flag k r m f) = pages m"
  by (simp add: pages_eq save_flag_other)

lemma saveResetFlag_pages: "pages (EEPROM_saveResetFlag m f) = pages m"
  by (simp add: pages_eq saveResetFlag_eq)

lemma pages_le_iff:
  "(EEPROM_retrieveLogPages m \<le> SPI_EEPROM_PAGE_COUNT) = (pages m \<le> 512)"
  by (simp add: pages_def SPI_EEPROM_PAGE_COUNT_def word_le_nat_alt)

lemma inc_pages_suc:
  assumes "EEPROM_retrieveLogPages m < SPI_EEPROM_PAGE_COUNT"
      and "EEPROM_readByte m CTRL_REG_LOG_PAGES_LOW \<noteq> 0xFF"
  shows "EEPROM_retrieveLogPages (EEPROM_incrementLogCounter m) = EEPROM_retrieveLogPages m + 1"
proof -
  from assms(1) have p: "pages m < 512"
    by (simp add: pages_def SPI_EEPROM_PAGE_COUNT_def word_less_nat_alt)
  have "unat (m 8) \<noteq> 255"
  proof
    assume "unat (m 8) = 255"
    then have "m 8 = 0xFF" by (simp add: word_unat_eq_iff)
    with assms(2) show False
      by (simp add: EEPROM_readByte_def CTRL_REG_LOG_PAGES_LOW_def)
  qed
  with unat_u8_lt [of "m 8"] have "unat (m 8 + 1) = unat (m 8) + 1"
    by (simp add: unat_word_ariths)
  then have "pages (EEPROM_incrementLogCounter m) = pages m + 1"
    using p by (simp add: pages_eq [of "EEPROM_incrementLogCounter m"] inc_low inc_other
        pages_eq [of m])
  then have "unat (EEPROM_retrieveLogPages (EEPROM_incrementLogCounter m)) =
             unat (EEPROM_retrieveLogPages m + 1)"
    using p by (simp add: unat_pages_suc) (simp add: pages_def)
  then show ?thesis by (simp add: word_unat_eq_iff)
qed

lemma inc_pages_wrap:
  assumes "EEPROM_retrieveLogPages m < SPI_EEPROM_PAGE_COUNT"
      and "EEPROM_readByte m CTRL_REG_LOG_PAGES_LOW = 0xFF"
  shows "EEPROM_retrieveLogPages (EEPROM_incrementLogCounter m) = EEPROM_retrieveLogPages m - 255"
proof -
  from assms(1) have p: "pages m < 512"
    by (simp add: pages_def SPI_EEPROM_PAGE_COUNT_def word_less_nat_alt)
  from assms(2) have lo: "m 8 = 0xFF"
    by (simp add: EEPROM_readByte_def CTRL_REG_LOG_PAGES_LOW_def)
  have "pages (EEPROM_incrementLogCounter m) = 256 * unat (m 0x16)"
    using p by (simp add: pages_eq [of "EEPROM_incrementLogCounter m"] inc_low inc_other lo)
  moreover have q: "pages m = 256 * unat (m 0x16) + 255"
    by (simp add: pages_eq [of m] lo)
  ultimately have "pages (EEPROM_incrementLogCounter m) = pages m - 255" by simp
  moreover have "unat (EEPROM_retrieveLogPages m - 255) = pages m - 255"
    using q by (simp add: pages_def unat_sub_if_size)
  ultimately have "unat (EEPROM_retrieveLogPages (EEPROM_incrementLogCounter m)) =
             unat (EEPROM_retrieveLogPages m - 255)"
    by (simp add: pages_def)
  then show ?thesis by (simp only: word_unat_eq_iff)
qed

lemma inc_pages_same:
  assumes "\<not> EEPROM_retrieveLogPages m < SPI_EEPROM_PAGE_COUNT"
  shows "EEPROM_incrementLogCounter m = m"
  using assms by (simp add: EEPROM_incrementLogCounter_def Let_def)

text \<open>
  The store after 51 logged events from a blank store has the page counter at 255, and a
  store with the counter at 511: on both the counter is below 512 and its low byte is 0xFF.
\<close>

lemma counter_after_51_events:
  "EEPROM_retrieveLogPages eeprom_51_events = 255"
  "EEPROM_readByte eeprom_51_events CTRL_REG_LOG_PAGES_LOW = 0xFF"
proof -
  let ?s0 = "main_setup (power_on eeprom_zero imu_regs_zero)"
  have b: "length (IMU_log_queue ?s0) = 288" "eeprom ?s0 0x16 = 0" "eeprom ?s0 8 = 0"
    by (simp_all add: boot_state) (simp_all add: eeprom_zero_def)
  from events_counter [OF b(1) b(2), where ireg = "0x6A" and t = "0x1234" and n = 51]
  have c: "eeprom_51_events 0x16 = 0" "eeprom_51_events 8 = 255"
    by (simp_all add: b eeprom_51_events_def)
  then have "pages eeprom_51_events = 255" by (simp add: pages_eq)
  then have "unat (EEPROM_retrieveLogPages eeprom_51_events) = unat (255 :: u16)"
    by (simp add: pages_def)
  then show "EEPROM_retrieveLogPages eeprom_51_events = 255"
    by (simp only: word_unat_eq_iff)
  from c show "EEPROM_readByte eeprom_51_events CTRL_REG_LOG_PAGES_LOW = 0xFF"
    by (simp add: EEPROM_readByte_def CTRL_REG_LOG_PAGES_LOW_def)
qed

lemma counter_511:
  "EEPROM_retrieveLogPages eeprom_511 = 511"
  "EEPROM_readByte eeprom_511 CTRL_REG_LOG_PAGES_LOW = 0xFF"
  by (simp_all add: EEPROM_retrieveLogPages_def EEPROM_readByte_def eeprom_511_def eeprom_consts)

text \<open>
  C9. The page counter never exceeds 512: every operation on the store keeps
  \<open>EEPROM_retrieveLogPages \<le> SPI_EEPROM_PAGE_COUNT\<close>, and
  \<open>EEPROM_incrementLogCounter\<close> leaves the store unchanged when the counter is not
  strictly below 512. Below 512 it writes the two bytes of the incremented counter at
  0x0008 and 0x0009, but the counter is read with its high byte at 0x0016: what is read
  back is one more only when the low byte was not 0xFF, and 255 less when it was. So the
  counter is not incremented at 255, where it goes to 0, nor at 511, where it goes to 256.
\<close>

theorem page_counter_bounded:
  assumes "EEPROM_retrieveLogPages m \<le> SPI_EEPROM_PAGE_COUNT"
  shows "EEPROM_retrieveLogPages (EEPROM_incrementLogCounter m) \<le> SPI_EEPROM_PAGE_COUNT
       \<and> EEPROM_retrieveLogPages (EEPROM_storeLogData m d) \<le> SPI_EEPROM_PAGE_COUNT
       \<and> EEPROM_retrieveLogPages (EEPROM_storeLogMessage m msg) \<le> SPI_EEPROM_PAGE_COUNT
       \<and> EEPROM_retrieveLogPages (appendLog m lid ireg t q) \<le> SPI_EEPROM_PAGE_COUNT
       \<and> EEPROM_retrieveLogPages (EEPROM_saveStartStopState m f) \<le> SPI_EEPROM_PAGE_COUNT
       \<and> EEPROM_retrieveLogPages (EEPROM_saveConfigFlag m f) \<le> SPI_EEPROM_PAGE_COUNT
       \<and> EEPROM_retrieveLogPages (EEPROM_saveSendFlag m f) \<le> SPI_EEPROM_PAGE_COUNT
       \<and> EEPROM_retrieveLogPages (EEPROM_saveResetFlag m f) \<le> SPI_EEPROM_PAGE_COUNT
       \<and> EEPROM_retrieveLogPages (EEPROM_resetMemory m) \<le> SPI_EEPROM_PAGE_COUNT
       \<and> EEPROM_incrementLogCounter m =
           (if EEPROM_retrieveLogPages m < SPI_EEPROM_PAGE_COUNT
            then EEPROM_writePage m CTRL_REG_LOG_PAGES_LOW
                   [ucast ((EEPROM_retrieveLogPages m + 1) AND 0xFF),
                    ucast (drop_bit 8 (EEPROM_retrieveLogPages m + 1) AND 0xFF)] 2
            else m)
       \<and> EEPROM_retrieveLogPages (EEPROM_incrementLogCounter m) =
           (if EEPROM_retrieveLogPages m < SPI_EEPROM_PAGE_COUNT
            then if EEPROM_readByte m CTRL_REG_LOG_PAGES_LOW = 0xFF
                 then EEPROM_retrieveLogPages m - 255
                 else EEPROM_retrieveLogPages m + 1
            else EEPROM_retrieveLogPages m)
       \<and> EEPROM_retrieveLogPages eeprom_51_events = 255
       \<and> EEPROM_retrieveLogPages (EEPROM_incrementLogCounter eeprom_51_events) = 0
       \<and> EEPROM_retrieveLogPages eeprom_511 = 511
       \<and> EEPROM_retrieveLogPages (EEPROM_incrementLogCounter eeprom_511) = 256"
proof -
  from assms have p: "pages m \<le> 512" by (simp add: pages_le_iff)
  have rb: "EEPROM_retrieveLogPages (EEPROM_incrementLogCounter m) =
           (if EEPROM_retrieveLogPages m < SPI_EEPROM_PAGE_COUNT
            then if EEPROM_readByte m CTRL_REG_LOG_PAGES_LOW = 0xFF
                 then EEPROM_retrieveLogPages m - 255
                 else EEPROM_retrieveLogPages m + 1
            else EEPROM_retrieveLogPages m)"
    using inc_pages_suc [of m] inc_pages_wrap [of m] inc_pages_same [of m]
    by (simp split: if_splits)
  have inc: "EEPROM_incrementLogCounter m =
           (if EEPROM_retrieveLogPages m < SPI_EEPROM_PAGE_COUNT
            then EEPROM_writePage m CTRL_REG_LOG_PAGES_LOW
                   [ucast ((EEPROM_retrieveLogPages m + 1) AND 0xFF),
                    ucast (drop_bit 8 (EEPROM_retrieveLogPages m + 1) AND 0xFF)] 2
            else m)"
    by (simp add: EEPROM_incrementLogCounter_def Let_def)
  from p have inv:
    "EEPROM_retrieveLogPages (EEPROM_incrementLogCounter m) \<le> SPI_EEPROM_PAGE_COUNT"
    "EEPROM_retrieveLogPages (EEPROM_storeLogData m d) \<le> SPI_EEPROM_PAGE_COUNT"
    "EEPROM_retrieveLogPages (EEPROM_storeLogMessage m msg) \<le> SPI_EEPROM_PAGE_COUNT"
    "EEPROM_retrieveLogPages (appendLog m lid ireg t q) \<le> SPI_EEPROM_PAGE_COUNT"
    "EEPROM_retrieveLogPages (EEPROM_saveStartStopState m f) \<le> SPI_EEPROM_PAGE_COUNT"
    "EEPROM_retrieveLogPages (EEPROM_saveConfigFlag m f) \<le> SPI_EEPROM_PAGE_COUNT"
    "EEPROM_retrieveLogPages (EEPROM_saveSendFlag m f) \<le> SPI_EEPROM_PAGE_COUNT"
    "EEPROM_retrieveLogPages (EEPROM_saveResetFlag m f) \<le> SPI_EEPROM_PAGE_COUNT"
    "EEPROM_retrieveLogPages (EEPROM_resetMemory m) \<le> SPI_EEPROM_PAGE_COUNT"
    by (simp_all add: pages_le_iff inc_pages_le store_pages slm_pages_le appendLog_pages_le
        saveStartStopState_eq saveConfigFlag_eq saveSendFlag_eq save_flag_pages
        saveResetFlag_pages resetMemory_pages)
  have w255: "EEPROM_retrieveLogPages (EEPROM_incrementLogCounter eeprom_51_events) = 0"
    using inc_pages_wrap [of eeprom_51_events]
    by (simp add: counter_after_51_events SPI_EEPROM_PAGE_COUNT_def)
  have w511: "EEPROM_retrieveLogPages (EEPROM_incrementLogCounter eeprom_511) = 256"
    using inc_pages_wrap [of eeprom_511]
    by (simp add: counter_511 SPI_EEPROM_PAGE_COUNT_def)
  from inv inc rb w255 w511 counter_after_51_events(1) counter_511(1)
  show ?thesis by blast
qed

theorem page_counter_bounded_witness:
  "EEPROM_retrieveLogPages eeprom_510 \<le> SPI_EEPROM_PAGE_COUNT
   \<and> EEPROM_retrieveLogPages (EEPROM_incrementLogCounter eeprom_510) \<le> SPI_EEPROM_PAGE_COUNT
   \<and> EEPROM_retrieveLogPages
        (EEPROM_storeLogMessage eeprom_510 (LOG_createMessage 3 0x6A 0x1234 (replicate 60 7)))
       \<le> SPI_EEPROM_PAGE_COUNT
   \<and> EEPROM_retrieveLogPages (appendLog eeprom_510 3 0x6A 0x1234 queue_sevens)
       \<le> SPI_EEPROM_PAGE_COUNT
   \<and> EEPROM_retrieveLogPages (EEPROM_resetMemory eeprom_510) \<le> SPI_EEPROM_PAGE_COUNT
   \<and> EEPROM_retrieveLogPages eeprom_510 < SPI_EEPROM_PAGE_COUNT
   \<and> EEPROM_readByte eeprom_510 CTRL_REG_LOG_PAGES_LOW \<noteq> 0xFF
   \<and> EEPROM_retrieveLogPages (EEPROM_incrementLogCounter eeprom_510) = 511"
proof -
  have h: "EEPROM_retrieveLogPages eeprom_510 \<le> SPI_EEPROM_PAGE_COUNT"
    by (simp add: pages_510 SPI_EEPROM_PAGE_COUNT_def)
  have g: "EEPROM_retrieveLogPages eeprom_510 < SPI_EEPROM_PAGE_COUNT"
     "EEPROM_readByte eeprom_510 CTRL_REG_LOG_PAGES_LOW \<noteq> 0xFF"
     "EEPROM_retrieveLogPages eeprom_510 + 1 = 511"
    by (simp_all add: pages_510 SPI_EEPROM_PAGE_COUNT_def)
      (simp add: EEPROM_readByte_def eeprom_510_def CTRL_REG_LOG_PAGES_LOW_def)
  note t = page_counter_bounded [OF h, of "replicate 64 0"
      "LOG_createMessage 3 0x6A 0x1234 (replicate 60 7)" 3 "0x6A" "0x1234" queue_sevens 0]
  from t have inv:
    "EEPROM_retrieveLogPages (EEPROM_incrementLogCounter eeprom_510) \<le> SPI_EEPROM_PAGE_COUNT"
    "EEPROM_retrieveLogPages
        (EEPROM_storeLogMessage eeprom_510 (LOG_createMessage 3 0x6A 0x1234 (replicate 60 7)))
       \<le> SPI_EEPROM_PAGE_COUNT"
    "EEPROM_retrieveLogPages (appendLog eeprom_510 3 0x6A 0x1234 queue_sevens)
       \<le> SPI_EEPROM_PAGE_COUNT"
    "EEPROM_retrieveLogPages (EEPROM_resetMemory eeprom_510) \<le> SPI_EEPROM_PAGE_COUNT"
    by blast+
  from t have "EEPROM_retrieveLogPages (EEPROM_incrementLogCounter eeprom_510) =
           (if EEPROM_retrieveLogPages eeprom_510 < SPI_EEPROM_PAGE_COUNT
            then if EEPROM_readByte eeprom_510 CTRL_REG_LOG_PAGES_LOW = 0xFF
                 then EEPROM_retrieveLogPages eeprom_510 - 255
                 else EEPROM_retrieveLogPages eeprom_510 + 1
            else EEPROM_retrieveLogPages eeprom_510)"
    by blast
  with g have suc: "EEPROM_retrieveLogPages (EEPROM_incrementLogCounter eeprom_510) = 511"
    by simp
  from h inv g(1,2) suc show ?thesis by blast
qed

section \<open>Looking a log up\<close>

declare EEPROM_findLogID_loop.simps [simp del]

lemma findLogID_loop_hit:
  "m a = lid \<Longrightarrow> EEPROM_findLogID_loop m lid a = a"
  by (simp add: EEPROM_findLogID_loop.simps [of m lid a] EEPROM_readByte_def)

lemma findLogID_loop_miss:
  "k \<le> 511 \<Longrightarrow> (\<And>j. k \<le> j \<Longrightarrow> j \<le> 511 \<Longrightarrow> m (of_nat (64 * j)) \<noteq> lid) \<Longrightarrow>
   EEPROM_findLogID_loop m lid (of_nat (64 * k)) = 0xFFFF"
proof (induction "511 - k" arbitrary: k)
  case 0
  then have k: "k = 511" by simp
  have "m (of_nat (64 * k)) \<noteq> lid" using "0.prems" by simp
  then show ?case
    unfolding k
    by (subst EEPROM_findLogID_loop.simps)
      (simp add: EEPROM_readByte_def SPI_EEPROM_PAGE_SIZE_def SPI_EEPROM_SIZE_BYTE_def)
next
  case (Suc n)
  then have k: "k < 511" by simp
  define a :: u16 where "a = of_nat (64 * k)"
  define b :: u16 where "b = of_nat (64 * Suc k)"
  have miss: "m a \<noteq> lid" using Suc.prems by (simp add: a_def)
  have nxt: "a + 64 = b" by (simp add: a_def b_def)
  have "unat b = (64 * Suc k) mod 65536"
    unfolding b_def by (simp only: unat_of_nat) simp
  also have "\<dots> = 64 * Suc k" using k by simp
  finally have "unat b < 32767" using k by simp
  then have lt: "\<not> (0x7FFF :: u16) \<le> b"
    by (simp add: word_le_nat_alt)
  have "EEPROM_findLogID_loop m lid (of_nat (64 * Suc k)) = 0xFFFF"
    using Suc.hyps(2) Suc.prems k by (intro Suc.hyps(1)) simp_all
  then have ih: "EEPROM_findLogID_loop m lid b = 0xFFFF" by (simp only: b_def)
  have "EEPROM_findLogID_loop m lid a = 0xFFFF"
    using miss lt ih
    by (subst EEPROM_findLogID_loop.simps)
      (simp add: EEPROM_readByte_def SPI_EEPROM_PAGE_SIZE_def SPI_EEPROM_SIZE_BYTE_def nxt)
  then show ?case by (simp only: a_def)
qed

lemma findLogID_not_found:
  assumes "\<And>j. 1 \<le> j \<Longrightarrow> j \<le> 511 \<Longrightarrow> m (of_nat (64 * j)) \<noteq> lid"
  shows "EEPROM_findLogID m lid = 0xFFFF"
  using findLogID_loop_miss [of 1 m lid] assms
  by (simp add: EEPROM_findLogID_def LOG_DATA_BASE_ADDR_def)

lemma findLogID_first_page:
  "m 0x40 = lid \<Longrightarrow> EEPROM_findLogID m lid = LOG_DATA_BASE_ADDR"
  by (simp add: EEPROM_findLogID_def LOG_DATA_BASE_ADDR_def findLogID_loop_hit)

text \<open>
  C10. Identifier 0 cannot be told from an erased page: in a store whose log-data
  region (the addresses from \<open>LOG_DATA_BASE_ADDR\<close> to \<open>SPI_EEPROM_SIZE_BYTE\<close>) holds
  zero bytes, \<open>EEPROM_findLogID\<close> with identifier 0 returns the address of the first
  log-data page, not the invalid address 0xFFFF; this is the case right after
  \<open>EEPROM_resetMemory\<close>, whatever the store held before.
\<close>

theorem findLogID_zero_on_erased_store:
  assumes "\<forall>a. LOG_DATA_BASE_ADDR \<le> a \<and> a \<le> SPI_EEPROM_SIZE_BYTE
               \<longrightarrow> EEPROM_readByte m a = 0"
  shows "EEPROM_findLogID m 0 = LOG_DATA_BASE_ADDR
       \<and> EEPROM_findLogID m 0 \<noteq> 0xFFFF
       \<and> EEPROM_findLogID (EEPROM_resetMemory m') 0 = LOG_DATA_BASE_ADDR"
proof -
  from assms have "m 0x40 = 0"
    by (simp add: EEPROM_readByte_def LOG_DATA_BASE_ADDR_def SPI_EEPROM_SIZE_BYTE_def)
  then have "EEPROM_findLogID m 0 = LOG_DATA_BASE_ADDR"
    by (rule findLogID_first_page)
  moreover have "EEPROM_findLogID (EEPROM_resetMemory m') 0 = LOG_DATA_BASE_ADDR"
    by (rule findLogID_first_page) (simp add: resetMemory_byte)
  ultimately show ?thesis by (simp add: LOG_DATA_BASE_ADDR_def)
qed

theorem findLogID_zero_on_erased_store_witness:
  "EEPROM_readByte eeprom_zero LOG_DATA_BASE_ADDR = 0
   \<and> EEPROM_findLogID eeprom_zero 0 = LOG_DATA_BASE_ADDR
   \<and> EEPROM_findLogID eeprom_zero 0 \<noteq> 0xFFFF"
proof -
  have h: "\<forall>a. LOG_DATA_BASE_ADDR \<le> a \<and> a \<le> SPI_EEPROM_SIZE_BYTE
               \<longrightarrow> EEPROM_readByte eeprom_zero a = 0"
    by (simp add: EEPROM_readByte_def eeprom_zero_def)
  have z: "EEPROM_readByte eeprom_zero LOG_DATA_BASE_ADDR = 0"
    by (simp add: EEPROM_readByte_def eeprom_zero_def)
  from findLogID_zero_on_erased_store [OF h] z show ?thesis by blast
qed

section \<open>The read-log command\<close>

lemma LOG_sendData_sel:
  "uart_tx (LOG_sendData s msg) = uart_tx s @ encode_page msg"
  "eeprom (LOG_sendData s msg) = eeprom s"
  by (simp_all add: LOG_sendData_def encode_page_def LOG_MESSAGE_TOT_BYTE_def)

lemma send_log_fold:
  "uart_tx (foldl (\<lambda>t i. LOG_sendData t (EEPROM_retrieveLogMessage (eeprom t) arg (of_nat i)))
             s xs)
     = uart_tx s @ concat (map (\<lambda>i. encode_page
                               (EEPROM_retrieveLogMessage (eeprom s) arg (of_nat i))) xs)
   \<and> eeprom (foldl (\<lambda>t i. LOG_sendData t (EEPROM_retrieveLogMessage (eeprom t) arg (of_nat i)))
             s xs) = eeprom s"
  by (induction xs arbitrary: s) (simp_all add: LOG_sendData_sel)

lemma ISR_RX_send_log:
  "uart_tx (CUSTOM_ISR_RX s UART_RX_SEND_LOG_ID arg)
     = uart_tx s @ concat (map (\<lambda>i. encode_page
                               (EEPROM_retrieveLogMessage (eeprom s) arg (of_nat i))) [0..<5])"
  by (simp add: CUSTOM_ISR_RX_def UART_RX_SEND_LOG_ID_def UART_RX_RESET_MEMORY_def
      UART_RX_NUMBER_OF_LOGS_def UART_RX_READ_CTRL_REG_def send_log_fold
      LOG_PAGES_PER_EVENT_def)

lemma ISR_RX_send_log_length:
  "length (uart_tx (CUSTOM_ISR_RX s UART_RX_SEND_LOG_ID arg)) = length (uart_tx s) + 320"
proof -
  have "length (concat (map (\<lambda>i. encode_page (f i)) xs)) = 64 * length xs"
    for f :: "nat \<Rightarrow> log_t" and xs
    by (induction xs) simp_all
  from this [of "\<lambda>i. EEPROM_retrieveLogMessage (eeprom s) arg (of_nat i)" "[0..<5]"]
  show ?thesis by (simp add: ISR_RX_send_log)
qed

lemma retrieveLogMessage_zero:
  "encode_page (EEPROM_retrieveLogMessage eeprom_zero lid i) = replicate 64 0"
proof -
  have r: "EEPROM_retrieveLogData eeprom_zero lid i = replicate 64 0"
    by (simp add: EEPROM_retrieveLogData_def Let_def SPI_EEPROM_PAGE_SIZE_def readPage_const
        eeprom_zero_def)
  have "memcpy (replicate 60 0) 0 (replicate 64 0) 4 60 = replicate 60 0"
    by (intro nth_equalityI) (simp_all add: nth_memcpy)
  then have "EEPROM_retrieveLogMessage eeprom_zero lid i =
        \<lparr>logID = 0, intReg = 0, timestamp = 0, data = replicate 60 0\<rparr>"
    by (simp add: EEPROM_retrieveLogMessage_def r LOG_packMessage_def LOG_MESSAGE_DATA_BYTE_def)
  then show ?thesis
    by (simp add: encode_page_def LOG_unpackMessage_layout replicate_append_same [symmetric])
       (simp add: numeral_eq_Suc)
qed

text \<open>
  C5. The read-log command does not treat a missing identifier as "send nothing":
  on a store of zero bytes no page header equals 99, \<open>EEPROM_findLogID\<close> returns the
  invalid address 0xFFFF, and \<open>CUSTOM_ISR_RX\<close> still sends five records, 320 bytes,
  read from the addresses that \<open>EEPROM_retrieveLogData\<close> computes from 0xFFFF.
\<close>

theorem read_log_sends_on_not_found:
  "EEPROM_findLogID eeprom_zero 99 = 0xFFFF
   \<and> uart_tx (power_on eeprom_zero imu_regs_zero) = []
   \<and> uart_tx (CUSTOM_ISR_RX (power_on eeprom_zero imu_regs_zero) UART_RX_SEND_LOG_ID 99)
       = replicate 320 0
   \<and> length (uart_tx (CUSTOM_ISR_RX (power_on eeprom_zero imu_regs_zero)
                UART_RX_SEND_LOG_ID 99)) = 320"
proof -
  have nf: "EEPROM_findLogID eeprom_zero 99 = 0xFFFF"
    by (rule findLogID_not_found) (simp add: eeprom_zero_def)
  have "[0..<5] = [0, 1, 2, 3, 4]" by (simp add: upt_rec)
  then have tx: "uart_tx (CUSTOM_ISR_RX (power_on eeprom_zero imu_regs_zero)
              UART_RX_SEND_LOG_ID 99) = replicate 320 0"
    by (simp add: ISR_RX_send_log power_on_def retrieveLogMessage_zero
        replicate_add [symmetric])
  from nf tx show ?thesis by (simp add: power_on_def)
qed

section \<open>The queue of reduced bursts\<close>

lemmas lis3dh_sizes =
  LIS3DH_BYTES_IN_FIFO_def LIS3DH_BYTES_IN_FIFO_HIGH_REG_def LIS3DH_DOWN_SAMPLE_def
  LIS3DH_FIFO_STORED_def LIS3DH_LEVELS_IN_FIFO_def LIS3DH_BYTES_IN_FIFO_DOWNSAMPLED_def
  LIS3DH_BYTES_IN_LOG_BUFFER_def

lemma high_reg_fold:
  "n \<le> length h \<Longrightarrow>
   length (foldl (\<lambda>h i. h[i := buffer ! (i * 2 + 1)]) h [0..<n]) = length h
   \<and> (\<forall>k < length h. foldl (\<lambda>h i. h[i := buffer ! (i * 2 + 1)]) h [0..<n] ! k
         = (if k < n then buffer ! (k * 2 + 1) else h ! k))"
proof (induction n)
  case 0
  then show ?case by simp
next
  case (Suc n)
  then show ?case by (auto simp: nth_list_update less_Suc_eq)
qed

lemma high_reg_data:
  "length (IMU_high_reg_data buffer) = 96"
  "k < 96 \<Longrightarrow> IMU_high_reg_data buffer ! k = buffer ! (k * 2 + 1)"
  using high_reg_fold [of 96 "replicate 96 0" buffer]
  by (simp_all add: IMU_high_reg_data_def lis3dh_sizes)

lemma down_sample_level_nth:
  assumes "3 * n + 3 \<le> length d" and "k < length d"
  shows "IMU_down_sample_level h d n ! k =
     (if k = 3 * n then h ! (6 * n) else if k = 3 * n + 1 then h ! (6 * n + 1)
      else if k = 3 * n + 2 then h ! (6 * n + 2) else d ! k)"
  using assms
  by (auto simp: IMU_down_sample_level_def nth_list_update mult.commute)

lemma length_down_sample_level [simp]: "length (IMU_down_sample_level h d n) = length d"
  by (simp add: IMU_down_sample_level_def)

lemma down_sampled_fold:
  "3 * n \<le> length d \<Longrightarrow>
   length (foldl (IMU_down_sample_level h) d [0..<n]) = length d
   \<and> (\<forall>k < length d. foldl (IMU_down_sample_level h) d [0..<n] ! k
         = (if k < 3 * n then h ! (6 * (k div 3) + k mod 3) else d ! k))"
proof (induction n)
  case 0
  then show ?case by simp
next
  case (Suc n)
  then have ih: "length (foldl (IMU_down_sample_level h) d [0..<n]) = length d"
     "\<And>k. k < length d \<Longrightarrow> foldl (IMU_down_sample_level h) d [0..<n] ! k
         = (if k < 3 * n then h ! (6 * (k div 3) + k mod 3) else d ! k)"
    by simp_all
  show ?case
  proof (intro conjI allI impI)
    show "length (foldl (IMU_down_sample_level h) d [0..<Suc n]) = length d"
      by (simp add: ih)
  next
    fix k assume k: "k < length d"
    let ?f = "foldl (IMU_down_sample_level h) d [0..<n]"
    have st: "foldl (IMU_down_sample_level h) d [0..<Suc n] = IMU_down_sample_level h ?f n"
      by simp
    have len: "3 * n + 3 \<le> length ?f" "k < length ?f"
      using Suc.prems k by (simp_all add: ih)
    consider "k = 3 * n" | "k = 3 * n + 1" | "k = 3 * n + 2" | "k < 3 * n" | "3 * n + 3 \<le> k"
      by linarith
    then show "foldl (IMU_down_sample_level h) d [0..<Suc n] ! k
         = (if k < 3 * Suc n then h ! (6 * (k div 3) + k mod 3) else d ! k)"
    proof cases
      case 1
      then have "6 * (k div 3) + k mod 3 = 6 * n" "k < 3 * Suc n" by arith+
      with 1 show ?thesis
        unfolding st down_sample_level_nth [OF len] by simp
    next
      case 2
      then have "6 * (k div 3) + k mod 3 = 6 * n + 1" "k < 3 * Suc n" by arith+
      with 2 show ?thesis
        unfolding st down_sample_level_nth [OF len] by simp
    next
      case 3
      then have "6 * (k div 3) + k mod 3 = 6 * n + 2" "k < 3 * Suc n" by arith+
      with 3 show ?thesis
        unfolding st down_sample_level_nth [OF len] by simp
    next
      case 4
      with k show ?thesis
        unfolding st down_sample_level_nth [OF len] by (simp add: ih)
    next
      case 5
      with k show ?thesis
        unfolding st down_sample_level_nth [OF len] by (simp add: ih)
    qed
  qed
qed

lemma down_sampled_data:
  "length (IMU_down_sampled_data h) = 48"
  "k < 48 \<Longrightarrow> IMU_down_sampled_data h ! k = h ! (6 * (k div 3) + k mod 3)"
  using down_sampled_fold [of 16 "replicate 48 0" h]
  by (simp_all add: IMU_down_sampled_data_def lis3dh_sizes)

lemma length_reduce [simp]: "length (reduce buffer) = 48"
  by (simp add: reduce_def down_sampled_data)

lemma nth_reduce:
  "k < 48 \<Longrightarrow> reduce buffer ! k = buffer ! (12 * (k div 3) + 2 * (k mod 3) + 1)"
proof -
  assume k: "k < 48"
  then have "6 * (k div 3) + k mod 3 < 96" by arith
  then show ?thesis
    using k by (simp add: reduce_def down_sampled_data high_reg_data algebra_simps)
qed

lemma reduce_raw_burst: "reduce (raw_burst v) = replicate 48 v"
proof (rule nth_equalityI)
  show "length (reduce (raw_burst v)) = length (replicate 48 v)" by simp
next
  fix k assume "k < length (reduce (raw_burst v))"
  then have k: "k < 48" by simp
  then have "12 * (k div 3) + 2 * (k mod 3) + 1 < 192" by arith
  with k show "reduce (raw_burst v) ! k = replicate 48 v ! k"
    by (simp add: nth_reduce raw_burst_def lis3dh_sizes)
qed

lemma memcpy_ascending_step:
  "memcpy_ascending a doff soff (Suc n) =
     (memcpy_ascending a doff soff n)[doff + n := memcpy_ascending a doff soff n ! (soff + n)]"
  by (simp add: memcpy_ascending_def)

lemma length_memcpy_ascending [simp]: "length (memcpy_ascending a doff soff n) = length a"
proof (induction n)
  case 0
  show ?case by (simp add: memcpy_ascending_def)
next
  case (Suc n)
  then show ?case by (simp add: memcpy_ascending_step)
qed

lemma queue_shift_ascending_nth:
  assumes "length q = 288"
  shows "n \<le> 240 \<Longrightarrow> \<forall>i<288. memcpy_ascending q 48 0 n ! i =
           (if 48 \<le> i \<and> i < 48 + n then q ! (i mod 48) else q ! i)"
proof (induction n)
  case 0
  then show ?case by (simp add: memcpy_ascending_def)
next
  case (Suc n)
  then have ih: "\<And>j. j < 288 \<Longrightarrow> memcpy_ascending q 48 0 n ! j =
           (if 48 \<le> j \<and> j < 48 + n then q ! (j mod 48) else q ! j)"
    by simp
  have src: "memcpy_ascending q 48 0 n ! n = q ! (n mod 48)"
    using Suc.prems by (simp add: ih)
  have m: "(48 + n) mod 48 = n mod 48" by simp
  show ?case
  proof (intro allI impI)
    fix i :: nat assume i: "i < 288"
    show "memcpy_ascending q 48 0 (Suc n) ! i =
           (if 48 \<le> i \<and> i < 48 + Suc n then q ! (i mod 48) else q ! i)"
    proof (cases "i = 48 + n")
      case True
      with i assms show ?thesis
        by (simp add: memcpy_ascending_step src m)
    next
      case False
      with i assms show ?thesis
        by (auto simp: memcpy_ascending_step ih)
    qed
  qed
qed

lemma queue_shift_ascending:
  assumes "length q = 288"
  shows "memcpy_ascending q 48 0 240 = take 48 q @ concat (replicate 5 (take 48 q))"
proof (rule nth_equalityI)
  show "length (memcpy_ascending q 48 0 240) =
        length (take 48 q @ concat (replicate 5 (take 48 q)))"
    using assms by (simp add: numeral_eq_Suc)
next
  fix i assume "i < length (memcpy_ascending q 48 0 240)"
  then have i: "i < 288" using assms by simp
  have c: "concat (replicate 5 (take 48 q)) =
           take 48 q @ take 48 q @ take 48 q @ take 48 q @ take 48 q"
    by (simp add: numeral_eq_Suc)
  consider "i < 48" | "48 \<le> i" "i < 96" | "96 \<le> i" "i < 144" | "144 \<le> i" "i < 192"
    | "192 \<le> i" "i < 240" | "240 \<le> i"
    by linarith
  then have "(take 48 q @ take 48 q @ take 48 q @ take 48 q @ take 48 q @ take 48 q) ! i
        = q ! (i mod 48)"
    using i assms
    by cases (simp_all add: nth_append mod_if le_mod_geq)
  then show "memcpy_ascending q 48 0 240 ! i =
        (take 48 q @ concat (replicate 5 (take 48 q))) ! i"
    using i queue_shift_ascending_nth [OF assms, of 240]
    by (simp add: c)
qed

lemma StoreFIFO_with_eq:
  assumes "length (cp q 48 0 240) = 288"
  shows "IMU_StoreFIFO_with cp q buffer = reduce buffer @ drop 48 (cp q 48 0 240)"
proof -
  have "memcpy (cp q 48 0 240) 0 (reduce buffer) 0 48 =
        reduce buffer @ drop 48 (cp q 48 0 240)"
    using assms by (intro nth_equalityI) (auto simp: nth_memcpy nth_append)
  then show ?thesis
    by (simp add: IMU_StoreFIFO_with_def Let_def reduce_def lis3dh_sizes)
qed

lemma length_concat_replicate: "length (concat (replicate n xs)) = n * length xs"
  by (induction n) simp_all

lemma StoreFIFO_eq:
  assumes "length q = 288"
  shows "IMU_StoreFIFO q buffer = reduce buffer @ concat (replicate 5 (take 48 q))"
  using assms StoreFIFO_with_eq [of memcpy_ascending q buffer]
  by (simp add: IMU_StoreFIFO_def queue_shift_ascending length_concat_replicate)

lemma length_StoreFIFO: "length q = 288 \<Longrightarrow> length (IMU_StoreFIFO q buffer) = 288"
  by (simp add: StoreFIFO_eq length_concat_replicate)

lemma StoreFIFO_memmove_eq:
  assumes "length q = 288"
  shows "IMU_StoreFIFO_with memmove_within q buffer = reduce buffer @ take 240 q"
proof -
  have "drop 48 (memmove_within q 48 0 240) = take 240 q"
    using assms
    by (intro nth_equalityI) (simp_all add: memmove_within_def nth_memcpy)
  then show ?thesis
    using assms StoreFIFO_with_eq [of memmove_within q buffer]
    by (simp add: memmove_within_def)
qed

text \<open>
  With a copy that behaves as \<open>memmove\<close>, six pushes leave the six reduced bursts in
  the queue, newest first.
\<close>

lemma six_pushes_memmove:
  assumes "length q = 288"
  shows "IMU_StoreFIFO_with memmove_within
          (IMU_StoreFIFO_with memmove_within
            (IMU_StoreFIFO_with memmove_within
              (IMU_StoreFIFO_with memmove_within
                (IMU_StoreFIFO_with memmove_within
                  (IMU_StoreFIFO_with memmove_within q b1) b2) b3) b4) b5) b6
         = reduce b6 @ reduce b5 @ reduce b4 @ reduce b3 @ reduce b2 @ reduce b1"
  using assms by (simp add: StoreFIFO_memmove_eq)

text \<open>With the ascending copy, each push fills the five older places with the last burst.\<close>

lemma six_pushes_ascending:
  assumes "length q = 288"
  shows "IMU_StoreFIFO (IMU_StoreFIFO (IMU_StoreFIFO (IMU_StoreFIFO (IMU_StoreFIFO
           (IMU_StoreFIFO q b1) b2) b3) b4) b5) b6
         = reduce b6 @ concat (replicate 5 (reduce b5))"
proof -
  note l1 = length_StoreFIFO [OF assms]
  note l2 = length_StoreFIFO [OF l1]
  note l3 = length_StoreFIFO [OF l2]
  note l4 = length_StoreFIFO [OF l3]
  have "IMU_StoreFIFO (IMU_StoreFIFO
          (IMU_StoreFIFO (IMU_StoreFIFO (IMU_StoreFIFO (IMU_StoreFIFO q b1) b2) b3) b4) b5) b6
        = reduce b6 @ concat (replicate 5 (take 48
            (IMU_StoreFIFO
              (IMU_StoreFIFO (IMU_StoreFIFO (IMU_StoreFIFO (IMU_StoreFIFO q b1) b2) b3) b4) b5)))"
    by (rule StoreFIFO_eq) (rule length_StoreFIFO [OF l4])
  also have "take 48 (IMU_StoreFIFO
              (IMU_StoreFIFO (IMU_StoreFIFO (IMU_StoreFIFO (IMU_StoreFIFO q b1) b2) b3) b4) b5)
             = reduce b5"
    by (simp add: StoreFIFO_eq [OF l4])
  finally show ?thesis .
qed

text \<open>
  C7. The order of the history is not kept by the code. \<open>IMU_StoreFIFO\<close> shifts the
  queue with \<open>memcpy\<close> on overlapping areas of \<open>IMU_log_queue\<close>, which C leaves
  undefined; with a copy in ascending address order the five older places are all filled
  with the previous burst. After pushing six bursts whose bytes are 1, 2, ..., 6 into a
  queue of zeros, the queue is the sixth reduced burst followed by five copies of the
  fifth, not the six reduced bursts newest first, and the payload of page 0 is 60 bytes of
  the fifth burst, not the last 60 bytes of the expected sequence. The payload of page 4
  is the first 48 bytes of the queue and 12 zero bytes.
\<close>

theorem history_queue_not_shifted:
  "IMU_StoreFIFO (IMU_StoreFIFO (IMU_StoreFIFO (IMU_StoreFIFO (IMU_StoreFIFO
     (IMU_StoreFIFO queue_zero (raw_burst 1)) (raw_burst 2)) (raw_burst 3)) (raw_burst 4))
     (raw_burst 5)) (raw_burst 6)
     = replicate 48 6 @ replicate 240 5
   \<and> replicate 48 6 @ replicate 240 5
       \<noteq> reduce (raw_burst 6) @ reduce (raw_burst 5) @ reduce (raw_burst 4)
         @ reduce (raw_burst 3) @ reduce (raw_burst 2) @ reduce (raw_burst 1)
   \<and> IMU_getPayload (replicate 48 6 @ replicate 240 5) (replicate 60 0) 0
       = Some (replicate 60 5)
   \<and> replicate 60 5
       \<noteq> drop 228 (reduce (raw_burst 6) @ reduce (raw_burst 5) @ reduce (raw_burst 4)
             @ reduce (raw_burst 3) @ reduce (raw_burst 2) @ reduce (raw_burst 1))
   \<and> IMU_getPayload (replicate 48 6 @ replicate 240 5) (replicate 60 0) 4
       = Some (replicate 48 6 @ replicate 12 0)"
proof -
  have q: "length queue_zero = 288" by (simp add: queue_zero_def lis3dh_sizes)
  have r5: "concat (replicate 5 (replicate 48 (5::u8))) = replicate 240 5"
    by (simp add: numeral_eq_Suc replicate_add [symmetric])
  have a: "IMU_StoreFIFO (IMU_StoreFIFO (IMU_StoreFIFO (IMU_StoreFIFO (IMU_StoreFIFO
     (IMU_StoreFIFO queue_zero (raw_burst 1)) (raw_burst 2)) (raw_burst 3)) (raw_burst 4))
     (raw_burst 5)) (raw_burst 6) = replicate 48 6 @ replicate 240 5"
    by (simp only: six_pushes_ascending [OF q] reduce_raw_burst r5)
  let ?e = "reduce (raw_burst 6) @ reduce (raw_burst 5) @ reduce (raw_burst 4)
         @ reduce (raw_burst 3) @ reduce (raw_burst 2) @ reduce (raw_burst 1)"
  have ee: "?e = replicate 48 6 @ replicate 48 5 @ replicate 48 4 @ replicate 48 3
                 @ replicate 48 2 @ replicate 48 1"
    by (simp only: reduce_raw_burst)
  have b: "replicate 48 6 @ replicate 240 5 \<noteq> ?e"
  proof
    assume "replicate 48 6 @ replicate 240 5 = ?e"
    then have "(replicate 48 6 @ replicate 240 (5::u8)) ! 287 = ?e ! 287" by simp
    then show False unfolding ee by (simp add: nth_append)
  qed
  have l: "length (replicate 48 6 @ replicate 240 (5::u8)) = 288" by simp
  have c: "IMU_getPayload (replicate 48 6 @ replicate 240 5) (replicate 60 0) 0
       = Some (replicate 60 5)"
    using getPayload_page [OF l, of 0] by (simp add: queue_page_def)
  have d: "replicate 60 5 \<noteq> drop 228 ?e"
  proof
    assume "replicate 60 5 = drop 228 ?e"
    then have "replicate 60 (5::u8) ! 59 = drop 228 ?e ! 59" by simp
    then show False unfolding ee by (simp add: nth_append)
  qed
  have e: "IMU_getPayload (replicate 48 6 @ replicate 240 5) (replicate 60 0) 4
       = Some (replicate 48 6 @ replicate 12 0)"
    using getPayload_page [OF l, of 4] by (simp add: queue_page_def)
  from a b c d e show ?thesis by blast
qed

section \<open>The modes and the acquisition\<close>

lemma ISR_RX_sel:
  "button_state (CUSTOM_ISR_RX s op_code arg) = button_state s"
  "imu_regs (CUSTOM_ISR_RX s op_code arg) = imu_regs s"
  "IMU_log_queue (CUSTOM_ISR_RX s op_code arg) = IMU_log_queue s"
proof -
  have "button_state (foldl (\<lambda>t i. LOG_sendData t (f t i)) s xs) = button_state s
      \<and> imu_regs (foldl (\<lambda>t i. LOG_sendData t (f t i)) s xs) = imu_regs s
      \<and> IMU_log_queue (foldl (\<lambda>t i. LOG_sendData t (f t i)) s xs) = IMU_log_queue s"
    for f :: "psoc \<Rightarrow> nat \<Rightarrow> log_t" and xs
    by (induction xs arbitrary: s) (simp_all add: LOG_sendData_def)
  from this [of "\<lambda>t i. EEPROM_retrieveLogMessage (eeprom t) arg (of_nat i)"]
  show "button_state (CUSTOM_ISR_RX s op_code arg) = button_state s"
    "imu_regs (CUSTOM_ISR_RX s op_code arg) = imu_regs s"
    "IMU_log_queue (CUSTOM_ISR_RX s op_code arg) = IMU_log_queue s"
    by (simp_all add: CUSTOM_ISR_RX_def)
qed

lemma IMU_ResetFIFO_off:
  "IMU_acquisition_off (IMU_ResetFIFO regs) = IMU_acquisition_off regs"
  by (simp add: IMU_acquisition_off_def IMU_ResetFIFO_def IMU_WriteReg_def
      LIS3DH_CTRL_REG1_def LIS3DH_CTRL_REG3_def LIS3DH_FIFO_CTRL_REG_def LIS3DH_INT1_CFG_def)

lemma ISR_START_sel:
  "button_state (CUSTOM_ISR_START s) =
     (if button_state s = START_MODE then STOP_MODE
      else if button_state s = STOP_MODE then START_MODE else button_state s)"
  "imu_regs (CUSTOM_ISR_START s) =
     (if button_state s = START_MODE then IMU_Stop (imu_regs s)
      else if button_state s = STOP_MODE then IMU_Start (imu_regs s) else imu_regs s)"
  "IMU_log_queue (CUSTOM_ISR_START s) = IMU_log_queue s"
  by (simp_all add: CUSTOM_ISR_START_def LED_Notify_Stop_def LED_Notify_Start_def Let_def)

lemma ISR_CONFIG_queue: "IMU_log_queue (CUSTOM_ISR_CONFIG s) = IMU_log_queue s"
  by (simp add: CUSTOM_ISR_CONFIG_def LED_Notify_Stop_def LED_Notify_Start_def
      LED_Notify_Config_def Let_def)

text \<open>
  In every state the firmware reaches, the mode is one of the three, the queue holds 288
  bytes, and acquisition is off whenever the mode is \<open>STOP_MODE\<close> or \<open>CONFIG_MODE\<close>.
\<close>

lemma reachable_invariant:
  "reachable s \<Longrightarrow>
     (button_state s = STOP_MODE \<or> button_state s = START_MODE
        \<or> button_state s = CONFIG_MODE)
     \<and> length (IMU_log_queue s) = 288
     \<and> (button_state s \<noteq> START_MODE \<longrightarrow> IMU_acquisition_off (imu_regs s))"
proof (induction rule: reachable.induct)
  case (boot m regs)
  show ?case
    by (simp add: main_setup_sel IMU_Init_def IMU_Stop_off boot_state mode_defs)
next
  case (long_press s)
  show ?case
  proof (cases "button_state s = CONFIG_MODE")
    case True
    have "EEPROM_retrieveStartStopState (eeprom s) = STOP_MODE
        \<or> EEPROM_retrieveStartStopState (eeprom s) = START_MODE"
      by (simp add: start_bit mode_defs)
    with True long_press show ?thesis
      by (auto simp: ISR_CONFIG_leave ISR_CONFIG_queue mode_defs)
  next
    case False
    with long_press show ?thesis
      by (auto simp: ISR_CONFIG_enter ISR_CONFIG_queue IMU_Stop_off mode_defs)
  qed
next
  case (double_click s)
  then show ?case
    by (auto simp: ISR_START_sel IMU_Stop_off mode_defs)
next
  case (remote s op_code arg)
  then show ?case by (simp add: ISR_RX_sel)
next
  case (sensor s fifo_src int1_src)
  then show ?case by (simp add: CUSTOM_ISR_IMU_def Let_def)
next
  case (mode_handler s raw)
  then show ?case by (auto simp: main_mode_handler_def)
next
  case (data_ready s buffer)
  then show ?case
    by (simp add: main_data_ready_def Let_def IMU_ResetFIFO_off length_StoreFIFO)
next
  case (over_threshold s int_reg time)
  then show ?case
    by (simp add: main_over_threshold_def Let_def IMU_ResetFIFO_off)
qed

end
